theory Spec2Isabelle
  imports Complex_Main
begin

section \<open>Common data model\<close>

text \<open>
  The Python exceptions that the modelled functions can raise. A function that may raise
  returns \<open>py_error + 'a\<close>, with \<open>Inl\<close> for the exception.
\<close>

datatype py_error =
  TypeError | ZeroDivisionError | ValueError | IndexError | KeyError | AttributeError
  | AssertionError | OverflowError

text \<open>
  A numpy array: its shape and its elements in row-major order. A real numpy array always
  holds as many elements as its shape says.
\<close>

record 'a ndarray =
  shape :: "nat list"
  flat :: "'a list"

definition wf_ndarray :: "'a ndarray \<Rightarrow> bool" where
  "wf_ndarray a = (length (flat a) = prod_list (shape a))"

text \<open>\<^verbatim>\<open>np.reshape(xs, shp)\<close> of a flat array: raises when the sizes differ.\<close>

definition reshape :: "'a list \<Rightarrow> nat list \<Rightarrow> py_error + 'a ndarray" where
  "reshape xs shp =
     (if prod_list shp = length xs then Inr \<lparr>shape = shp, flat = xs\<rparr> else Inl ValueError)"

text \<open>\<^verbatim>\<open>np.in1d(ar1, ar2, invert=inv)\<close>: membership of each element of \<open>ar1\<close> in \<open>ar2\<close>.\<close>

definition in1d :: "'a list \<Rightarrow> 'a list \<Rightarrow> bool \<Rightarrow> bool list" where
  "in1d ar1 ar2 invert = map (\<lambda>v. if invert then v \<notin> set ar2 else v \<in> set ar2) ar1"

section \<open>dc_utilities: create_cfmask_clean_mask\<close>

text \<open>
  \<^verbatim>\<open>
  clean_mask = np.reshape(
      np.in1d(cfmask.values.reshape(-1), [2, 3, 4, 255, no_data], invert=True),
      cfmask.values.shape)
  \<close>
  The argument is the array \<^verbatim>\<open>cfmask.values\<close>; cfmask codes are integers.
\<close>

definition create_cfmask_clean_mask :: "int ndarray \<Rightarrow> int \<Rightarrow> py_error + bool ndarray" where
  "create_cfmask_clean_mask cfmask no_data =
     reshape (in1d (flat cfmask) [2, 3, 4, 255, no_data] True) (shape cfmask)"

text \<open>The codes a cfmask band can hold, as the source's comment lists them.\<close>

definition cfmask_codes :: "int list" where
  "cfmask_codes = [0, 1, 2, 3, 4, 255]"

section \<open>Floating-point values\<close>

text \<open>
  A floating-point value: a finite number, an infinity or NaN. The finite numbers are
  rationals; the sign of zero is not modelled. The operations below are the exact ones on
  these values, with the special values of IEEE 754 as numpy applies them (division by
  zero gives an infinity or NaN and raises nothing; every comparison with NaN is false).
  The operations of a floating-point format, which round their result, follow in the next
  section.
\<close>

datatype fval = Fin rat | PInf | NInf | NaN

fun fneg :: "fval \<Rightarrow> fval" where
  "fneg (Fin a) = Fin (- a)"
| "fneg PInf = NInf"
| "fneg NInf = PInf"
| "fneg NaN = NaN"

fun fadd :: "fval \<Rightarrow> fval \<Rightarrow> fval" where
  "fadd NaN _ = NaN"
| "fadd _ NaN = NaN"
| "fadd (Fin a) (Fin b) = Fin (a + b)"
| "fadd PInf NInf = NaN"
| "fadd NInf PInf = NaN"
| "fadd PInf _ = PInf"
| "fadd _ PInf = PInf"
| "fadd NInf _ = NInf"
| "fadd _ NInf = NInf"

definition fsub :: "fval \<Rightarrow> fval \<Rightarrow> fval" where
  "fsub a b = fadd a (fneg b)"

text \<open>An infinity of the sign of \<open>s\<close>, for \<open>s \<noteq> 0\<close>.\<close>

definition inf_of_sign :: "rat \<Rightarrow> fval" where
  "inf_of_sign s = (if 0 < s then PInf else NInf)"

fun fmul :: "fval \<Rightarrow> fval \<Rightarrow> fval" where
  "fmul NaN _ = NaN"
| "fmul _ NaN = NaN"
| "fmul (Fin a) (Fin b) = Fin (a * b)"
| "fmul (Fin a) PInf = (if a = 0 then NaN else inf_of_sign a)"
| "fmul (Fin a) NInf = (if a = 0 then NaN else inf_of_sign (- a))"
| "fmul PInf (Fin b) = (if b = 0 then NaN else inf_of_sign b)"
| "fmul NInf (Fin b) = (if b = 0 then NaN else inf_of_sign (- b))"
| "fmul PInf PInf = PInf"
| "fmul NInf NInf = PInf"
| "fmul PInf NInf = NInf"
| "fmul NInf PInf = NInf"

fun fdiv :: "fval \<Rightarrow> fval \<Rightarrow> fval" where
  "fdiv NaN _ = NaN"
| "fdiv _ NaN = NaN"
| "fdiv (Fin a) (Fin b) =
     (if b = 0 then (if a = 0 then NaN else inf_of_sign a) else Fin (a / b))"
| "fdiv (Fin a) _ = Fin 0"
| "fdiv PInf (Fin b) = (if b < 0 then NInf else PInf)"
| "fdiv NInf (Fin b) = (if b < 0 then PInf else NInf)"
| "fdiv _ _ = NaN"

text \<open>The comparison \<^verbatim>\<open>a < b\<close> of two floating-point values.\<close>

fun flt :: "fval \<Rightarrow> fval \<Rightarrow> bool" where
  "flt NaN _ = False"
| "flt _ NaN = False"
| "flt (Fin a) (Fin b) = (a < b)"
| "flt NInf NInf = False"
| "flt NInf _ = True"
| "flt PInf _ = False"
| "flt (Fin a) PInf = True"
| "flt (Fin a) NInf = False"


section \<open>IEEE 754 binary formats\<close>

text \<open>
  The two formats of the program's numbers: \<^verbatim>\<open>float32\<close> and \<^verbatim>\<open>float64\<close>, the
  latter also the format of Python's \<^verbatim>\<open>float\<close>. A format has a precision \<open>p\<close> and
  the exponents \<open>emin\<close> to \<open>emax\<close> of its normal numbers; its finite numbers are the
  \<open>m * 2 ^ e\<close> with \<open>\<bar>m\<bar> < 2 ^ p\<close> and \<open>emin - p + 1 \<le> e \<le> emax - p + 1\<close>.
\<close>

datatype format = Binary32 | Binary64

fun precision :: "format \<Rightarrow> nat" where
  "precision Binary32 = 24"
| "precision Binary64 = 53"

fun emin :: "format \<Rightarrow> int" where
  "emin Binary32 = - 126"
| "emin Binary64 = - 1022"

fun emax :: "format \<Rightarrow> int" where
  "emax Binary32 = 127"
| "emax Binary64 = 1023"

text \<open>The exponent of a positive number: \<open>2 ^ ilog2 x \<le> x < 2 ^ (ilog2 x + 1)\<close>.\<close>

function ilog2 :: "rat \<Rightarrow> int" where
  "ilog2 x = (if x \<le> 0 then 0
              else if x < 1 then ilog2 (2 * x) - 1
              else if 2 \<le> x then ilog2 (x / 2) + 1
              else 0)"
  by pat_completeness auto
termination
proof (relation "measure (\<lambda>x. nat \<lceil>x\<rceil> + 2 * nat \<lceil>1 / x\<rceil>)")
  show "wf (measure (\<lambda>x. nat \<lceil>x\<rceil> + 2 * nat \<lceil>1 / x\<rceil>))" by simp
next
  fix x :: rat
  assume a: "\<not> x \<le> 0" "x < 1"
  have c1: "\<lceil>x\<rceil> = 1" using a by (intro ceiling_unique) simp_all
  have c2: "\<lceil>2 * x\<rceil> \<le> 2" using a by (simp add: ceiling_le_iff)
  have c3: "0 < \<lceil>2 * x\<rceil>" using a by simp
  have y: "1 < 1 / x" using a by simp
  have "1 / (2 * x) \<le> of_int (\<lceil>1 / x\<rceil> - 1)"
  proof (cases "2 \<le> 1 / x")
    case True
    define y where "y = 1 / x"
    have "1 / (2 * x) = y / 2" by (simp add: y_def)
    also have "\<dots> \<le> y - 1" using True unfolding y_def [symmetric] by linarith
    also have "\<dots> \<le> of_int (\<lceil>y\<rceil> - 1)" by (simp add: le_of_int_ceiling)
    finally show ?thesis by (simp only: y_def)
  next
    case False
    then have "\<lceil>1 / x\<rceil> = 2" using y by (intro ceiling_unique) simp_all
    moreover have "1 / (2 * x) \<le> 1" using False a by (simp add: field_simps)
    ultimately show ?thesis by simp
  qed
  then have c4: "\<lceil>1 / (2 * x)\<rceil> \<le> \<lceil>1 / x\<rceil> - 1" by (simp only: ceiling_le_iff)
  have c5: "0 < \<lceil>1 / (2 * x)\<rceil>" using a by simp
  have n1: "nat \<lceil>2 * x\<rceil> \<le> 2" using c2 by linarith
  have n2: "nat \<lceil>1 / (2 * x)\<rceil> < nat \<lceil>1 / x\<rceil>" using c4 c5 by linarith
  have n3: "nat \<lceil>x\<rceil> = 1" using c1 by simp
  show "(2 * x, x) \<in> measure (\<lambda>x. nat \<lceil>x\<rceil> + 2 * nat \<lceil>1 / x\<rceil>)"
    unfolding in_measure using n1 n2 n3 by linarith
next
  fix x :: rat
  assume a: "\<not> x \<le> 0" "\<not> x < 1" "2 \<le> x"
  have "x / 2 \<le> of_int (\<lceil>x\<rceil> - 1)"
  proof -
    have "x / 2 \<le> x - 1" using a by linarith
    also have "\<dots> \<le> of_int (\<lceil>x\<rceil> - 1)" by (simp add: le_of_int_ceiling)
    finally show ?thesis .
  qed
  then have c1: "\<lceil>x / 2\<rceil> \<le> \<lceil>x\<rceil> - 1" by (simp only: ceiling_le_iff)
  have c2: "0 < \<lceil>x / 2\<rceil>" using a by simp
  have c3: "\<lceil>1 / x\<rceil> = 1" using a by (intro ceiling_unique) simp_all
  have c4: "\<lceil>1 / (x / 2)\<rceil> = 1" using a by (intro ceiling_unique) simp_all
  have n1: "nat \<lceil>x / 2\<rceil> < nat \<lceil>x\<rceil>" using c1 c2 by linarith
  show "(x / 2, x) \<in> measure (\<lambda>x. nat \<lceil>x\<rceil> + 2 * nat \<lceil>1 / x\<rceil>)"
    unfolding in_measure using n1 c3 c4 by simp
qed

declare ilog2.simps [simp del]

text \<open>Rounding to the nearest integer, a tie to the even one.\<close>

definition round_half_even :: "rat \<Rightarrow> int" where
  "round_half_even y =
     (let f = \<lfloor>y\<rfloor>; d = y - of_int f
      in if d < 1 / 2 then f else if 1 / 2 < d then f + 1 else if even f then f else f + 1)"

text \<open>
  The exponent of the unit in the last place of \<open>x\<close>, and \<open>x\<close> rounded to the
  nearest multiple of that unit (subnormal numbers have the unit of \<open>emin\<close>). An
  exponent above \<open>emax\<close> is allowed here; \<open>rnd\<close> is the rounding of the format, to
  the nearest number, a tie to the even one, and to an infinity on overflow.
\<close>

definition ulp_exp :: "format \<Rightarrow> rat \<Rightarrow> int" where
  "ulp_exp f x = max (ilog2 \<bar>x\<bar>) (emin f) - (int (precision f) - 1)"

definition round_fmt :: "format \<Rightarrow> rat \<Rightarrow> rat" where
  "round_fmt f x =
     (if x = 0 then 0
      else of_int (round_half_even (x / 2 powi ulp_exp f x)) * 2 powi ulp_exp f x)"

definition rnd :: "format \<Rightarrow> rat \<Rightarrow> fval" where
  "rnd f x =
     (let r = round_fmt f x
      in if 2 powi (emax f + 1) \<le> \<bar>r\<bar> then inf_of_sign x else Fin r)"

text \<open>The operations of a format: the exact result, rounded.\<close>

definition fround :: "format \<Rightarrow> fval \<Rightarrow> fval" where
  "fround f v = (case v of Fin x \<Rightarrow> rnd f x | _ \<Rightarrow> v)"

definition fl_add :: "format \<Rightarrow> fval \<Rightarrow> fval \<Rightarrow> fval" where
  "fl_add f a b = fround f (fadd a b)"

definition fl_sub :: "format \<Rightarrow> fval \<Rightarrow> fval \<Rightarrow> fval" where
  "fl_sub f a b = fround f (fsub a b)"

definition fl_mul :: "format \<Rightarrow> fval \<Rightarrow> fval \<Rightarrow> fval" where
  "fl_mul f a b = fround f (fmul a b)"

definition fl_div :: "format \<Rightarrow> fval \<Rightarrow> fval \<Rightarrow> fval" where
  "fl_div f a b = fround f (fdiv a b)"

text \<open>The equality \<^verbatim>\<open>a == b\<close> of two floating-point values: NaN equals nothing.\<close>

definition feq :: "fval \<Rightarrow> fval \<Rightarrow> bool" where
  "feq a b = (a = b \<and> a \<noteq> NaN)"

section \<open>dc_utilities: chunks and split_task\<close>

text \<open>Python's \<^verbatim>\<open>range(start, stop, step)\<close>, as the list it iterates over.\<close>

definition py_range :: "int \<Rightarrow> int \<Rightarrow> int \<Rightarrow> py_error + int list" where
  "py_range start stop step =
     (if step = 0 then Inl ValueError
      else if 0 < step then
        Inr (map (\<lambda>k. start + int k * step) [0 ..< nat ((stop - start + step - 1) div step)])
      else
        Inr (map (\<lambda>k. start + int k * step) [0 ..< nat ((start - stop - step - 1) div (- step))]))"

text \<open>Python's slice \<^verbatim>\<open>l[i:j]\<close>: negative indices count from the end, all are clipped.\<close>

definition py_slice :: "'a list \<Rightarrow> int \<Rightarrow> int \<Rightarrow> 'a list" where
  "py_slice l i j =
     (let n = int (length l);
          ci = (if i < 0 then max 0 (n + i) else min i n);
          cj = (if j < 0 then max 0 (n + j) else min j n)
      in drop (nat ci) (take (nat cj) l))"

text \<open>
  \<^verbatim>\<open>
  def chunks(l, n):
      for i in range(0, len(l), n):
          yield l[i:i + n]
  \<close>
  The generator is consumed at once by \<^verbatim>\<open>list(...)\<close> in \<open>split_task\<close>, so the model
  returns the list of the chunks, or the error of \<^verbatim>\<open>range\<close>.
\<close>

definition chunks :: "'a list \<Rightarrow> int \<Rightarrow> py_error + 'a list list" where
  "chunks l n =
     (case py_range 0 (int (length l)) n of
        Inl e \<Rightarrow> Inl e
      | Inr is \<Rightarrow> Inr (map (\<lambda>i. py_slice l i (i + n)) is))"

text \<open>
  Python's numbers. An \<^verbatim>\<open>int\<close> is unbounded; a \<^verbatim>\<open>float\<close> is a binary64 number.
  The true division \<^verbatim>\<open>a / b\<close> of two integers is the exact quotient rounded once; it
  raises ZeroDivisionError for a zero divisor and OverflowError when the quotient is too
  large for a \<^verbatim>\<open>float\<close>, and a quotient too small for one becomes \<open>0.0\<close>.
\<close>

definition py_int_truediv :: "int \<Rightarrow> int \<Rightarrow> py_error + fval" where
  "py_int_truediv a b =
     (if b = 0 then Inl ZeroDivisionError
      else (case rnd Binary64 (of_int a / of_int b) of
              Fin q \<Rightarrow> Inr (Fin q)
            | _ \<Rightarrow> Inl OverflowError))"

text \<open>
  An integer operand of an operation with a \<^verbatim>\<open>float\<close> is converted first, to the
  nearest \<^verbatim>\<open>float\<close>; an integer too large for that raises OverflowError.
\<close>

definition py_float_of_int :: "int \<Rightarrow> py_error + fval" where
  "py_float_of_int i =
     (case rnd Binary64 (of_int i) of
        Fin q \<Rightarrow> Inr (Fin q)
      | _ \<Rightarrow> Inl OverflowError)"

text \<open>
  The division \<^verbatim>\<open>a / b\<close> of two \<^verbatim>\<open>float\<close>s raises for a zero divisor; the sum, the
  difference and the product of two \<^verbatim>\<open>float\<close>s are \<open>fl_add\<close>, \<open>fl_sub\<close> and
  \<open>fl_mul\<close> in \<open>Binary64\<close>, and never raise.
\<close>

definition py_float_truediv :: "fval \<Rightarrow> fval \<Rightarrow> py_error + fval" where
  "py_float_truediv a b =
     (if b = Fin 0 then Inl ZeroDivisionError else Inr (fl_div Binary64 a b))"

text \<open>
  \<^verbatim>\<open>math.ceil\<close> of a \<^verbatim>\<open>float\<close>: an integer, ValueError for NaN and OverflowError for
  an infinity.
\<close>

definition math_ceil :: "fval \<Rightarrow> py_error + int" where
  "math_ceil v =
     (case v of
        Fin x \<Rightarrow> Inr \<lceil>x\<rceil>
      | NaN \<Rightarrow> Inl ValueError
      | _ \<Rightarrow> Inl OverflowError)"

text \<open>
  Line 82 of \<open>split_task\<close>:
  \<^verbatim>\<open>square_area = (longitude[1] - longitude[0]) * (latitude[1] - latitude[0])\<close>,
  evaluated before any test for \<^verbatim>\<open>None\<close>: subscripting \<^verbatim>\<open>None\<close> raises TypeError.
  The bounds of a range are \<^verbatim>\<open>float\<close>s.
\<close>

definition square_area_of :: "(fval \<times> fval) option \<Rightarrow> (fval \<times> fval) option \<Rightarrow> py_error + fval" where
  "square_area_of latitude longitude =
     (case longitude of
        None \<Rightarrow> Inl TypeError
      | Some lon \<Rightarrow>
          (case latitude of
             None \<Rightarrow> Inl TypeError
           | Some lat \<Rightarrow>
               Inr (fl_mul Binary64 (fl_sub Binary64 (snd lon) (fst lon))
                                    (fl_sub Binary64 (snd lat) (fst lat)))))"

text \<open>
  Lines 86 to 105: the geographic ranges.
  \<^verbatim>\<open>
  if latitude is not None and longitude is not None:
      if geo_chunk_size is not None and square_area > geo_chunk_size:
          geographic_chunks = math.ceil(square_area / geo_chunk_size)
          lat_range_size = (latitude[1] - latitude[0]) / geographic_chunks
          for i in range(math.ceil((latitude[1] - latitude[0]) / lat_range_size)):
              lower_lat = latitude[0] + (i * lat_range_size)
              upper_lat = latitude[0] + ((i + 1) * lat_range_size)
              if i != geographic_chunks - 1:
                  upper_lat -= resolution
              lat_ranges.append((lower_lat, upper_lat))
              lon_ranges.append((longitude[0], longitude[1]))
      else:
          lon_ranges.append((longitude[0], longitude[1]))
          lat_ranges.append((latitude[0], latitude[1]))
  else:
      lon_ranges = [None]
      lat_ranges = [None]
  \<close>
  \<open>lat_band\<close> is the pair that one turn of the loop appends to \<open>lat_ranges\<close>, and
  \<open>collect\<close> the list that the loop builds, or the exception of the first turn that
  raises. The result is the pair \<open>(lat_ranges, lon_ranges)\<close>. The resolution and the
  chunk size are \<^verbatim>\<open>float\<close>s.
\<close>

type_synonym geo_range = "(fval \<times> fval) option"

definition lat_band :: "fval \<Rightarrow> fval \<times> fval \<Rightarrow> fval \<Rightarrow> int \<Rightarrow> int \<Rightarrow> py_error + geo_range" where
  "lat_band resolution lat lat_range_size geographic_chunks i =
     (case py_float_of_int i of
        Inl e \<Rightarrow> Inl e
      | Inr fi \<Rightarrow>
          (case py_float_of_int (i + 1) of
             Inl e \<Rightarrow> Inl e
           | Inr fi1 \<Rightarrow>
               (let lower_lat = fl_add Binary64 (fst lat) (fl_mul Binary64 fi lat_range_size);
                    upper_lat = fl_add Binary64 (fst lat) (fl_mul Binary64 fi1 lat_range_size);
                    upper_lat = (if i \<noteq> geographic_chunks - 1
                                 then fl_sub Binary64 upper_lat resolution else upper_lat)
                in Inr (Some (lower_lat, upper_lat)))))"

fun collect :: "(py_error + 'a) list \<Rightarrow> py_error + 'a list" where
  "collect [] = Inr []"
| "collect (Inl e # rs) = Inl e"
| "collect (Inr x # rs) = (case collect rs of Inl e \<Rightarrow> Inl e | Inr xs \<Rightarrow> Inr (x # xs))"

definition geo_ranges ::
  "fval \<Rightarrow> (fval \<times> fval) option \<Rightarrow> (fval \<times> fval) option \<Rightarrow> fval option \<Rightarrow> fval
     \<Rightarrow> py_error + (geo_range list \<times> geo_range list)" where
  "geo_ranges resolution latitude longitude geo_chunk_size square_area =
     (case (latitude, longitude) of
        (Some lat, Some lon) \<Rightarrow>
          (if geo_chunk_size \<noteq> None \<and> flt (the geo_chunk_size) square_area then
             (case py_float_truediv square_area (the geo_chunk_size) of
                Inl e \<Rightarrow> Inl e
              | Inr q \<Rightarrow>
             (case math_ceil q of
                Inl e \<Rightarrow> Inl e
              | Inr geographic_chunks \<Rightarrow>
             (case py_float_of_int geographic_chunks of
                Inl e \<Rightarrow> Inl e
              | Inr fg \<Rightarrow>
             (case py_float_truediv (fl_sub Binary64 (snd lat) (fst lat)) fg of
                Inl e \<Rightarrow> Inl e
              | Inr lat_range_size \<Rightarrow>
             (case py_float_truediv (fl_sub Binary64 (snd lat) (fst lat)) lat_range_size of
                Inl e \<Rightarrow> Inl e
              | Inr c \<Rightarrow>
             (case math_ceil c of
                Inl e \<Rightarrow> Inl e
              | Inr turns \<Rightarrow>
                  (let idx = map int [0 ..< nat turns] in
                   case collect (map (lat_band resolution lat lat_range_size geographic_chunks) idx) of
                     Inl e \<Rightarrow> Inl e
                   | Inr lat_ranges \<Rightarrow>
                       Inr (lat_ranges, map (\<lambda>i. Some (fst lon, snd lon)) idx))))))))
           else Inr ([Some (fst lat, snd lat)], [Some (fst lon, snd lon)]))
      | _ \<Rightarrow> Inr ([None], [None]))"

text \<open>
  Lines 107 to 112: the time ranges.
  \<^verbatim>\<open>
  acquisitions_sorted = sorted(acquisitions)
  time_ranges = [list(reversed(acquisitions_sorted)) if reverse_time else acquisitions_sorted]
  if time_chunks is not None:
      time_chunk_size = math.ceil(len(acquisitions_sorted) / time_chunks)
      time_ranges = list(
          chunks(list(reversed(acquisitions_sorted)) if reverse_time else acquisitions_sorted,
                 time_chunk_size))
  \<close>
  Acquisition dates are values of a linear order; \<open>time_chunks\<close> is an integer or
  \<^verbatim>\<open>None\<close>. With \<open>acquisitions\<close> left at \<^verbatim>\<open>None\<close>, \<^verbatim>\<open>sorted\<close> raises TypeError.
\<close>

definition time_chunk_size_of :: "'a list \<Rightarrow> int \<Rightarrow> py_error + int" where
  "time_chunk_size_of acquisitions_sorted time_chunks =
     (case py_int_truediv (int (length acquisitions_sorted)) time_chunks of
        Inl e \<Rightarrow> Inl e
      | Inr q \<Rightarrow> math_ceil q)"

definition time_ranges_of ::
  "('a::linorder) list option \<Rightarrow> int option \<Rightarrow> bool \<Rightarrow> py_error + 'a list list" where
  "time_ranges_of acquisitions time_chunks reverse_time =
     (case acquisitions of
        None \<Rightarrow> Inl TypeError
      | Some acqs \<Rightarrow>
          (let acquisitions_sorted = sort acqs;
               ordered = (if reverse_time then rev acquisitions_sorted else acquisitions_sorted)
           in case time_chunks of
                None \<Rightarrow> Inr [ordered]
              | Some tc \<Rightarrow>
                  (case time_chunk_size_of acquisitions_sorted tc of
                     Inl e \<Rightarrow> Inl e
                   | Inr time_chunk_size \<Rightarrow> chunks ordered time_chunk_size)))"

text \<open>
  \<open>split_task\<close> itself: the square area, the geographic ranges, the time ranges, and
  \<^verbatim>\<open>return lat_ranges, lon_ranges, time_ranges\<close>. The \<^verbatim>\<open>print\<close> of the square area
  is not modelled.
\<close>

definition split_task ::
  "fval \<Rightarrow> (fval \<times> fval) option \<Rightarrow> (fval \<times> fval) option \<Rightarrow> ('a::linorder) list option
     \<Rightarrow> fval option \<Rightarrow> int option \<Rightarrow> bool
     \<Rightarrow> py_error + (geo_range list \<times> geo_range list \<times> 'a list list)" where
  "split_task resolution latitude longitude acquisitions geo_chunk_size time_chunks reverse_time =
     (case square_area_of latitude longitude of
        Inl e \<Rightarrow> Inl e
      | Inr square_area \<Rightarrow>
          (case geo_ranges resolution latitude longitude geo_chunk_size square_area of
             Inl e \<Rightarrow> Inl e
           | Inr (lat_ranges, lon_ranges) \<Rightarrow>
               (case time_ranges_of acquisitions time_chunks reverse_time of
                  Inl e \<Rightarrow> Inl e
                | Inr time_ranges \<Rightarrow> Inr (lat_ranges, lon_ranges, time_ranges))))"

section \<open>Labelled arrays\<close>

text \<open>
  An xarray \<open>Dataset\<close>: the coordinates of its dimensions and its data variables by
  name, in their order. Every variable lies on the whole grid, as the bands of a data
  cube product do, and holds its values in row-major order. A \<open>DataArray\<close> is one
  array with its coordinates.
\<close>

type_synonym coordinates = "(string \<times> rat list) list"

record 'a dataset =
  ds_coords :: coordinates
  data_vars :: "(string \<times> 'a list) list"







section \<open>dc_ndvi_anomaly: NDVI and EVI\<close>





section \<open>data_access_api: get_scene_metadata\<close>

text \<open>
  The values of a query: a name, a pair of bounds, or a pair of times. A query is the
  dictionary of keyword arguments given to the data cube.
\<close>

datatype query_value = QName string | QBounds rat rat | QTimes int int

type_synonym query = "string \<rightharpoonup> query_value"

text \<open>
  What the data cube returns: an xarray \<open>Dataset\<close> with the names of its data
  variables, its time coordinate (in nanoseconds) and its \<open>geobox\<close>, of which the
  envelope of the extent \<open>(left, bottom, right, top)\<close> and the shape are read. A
  dataset is false in a condition when it has no data variable.
\<close>

record geobox =
  envelope :: "rat \<times> rat \<times> rat \<times> rat"
  gb_shape :: "nat \<times> nat"

record loaded_dataset =
  variable_names :: "string list"
  time_coord :: "int list"
  geobox_of :: "geobox option"

text \<open>
  \<open>get_dataset_by_extent\<close>: the query holds the arguments that are not \<^verbatim>\<open>None\<close>,
  longitude and latitude only together. \<^verbatim>\<open>self.dc.load\<close> is the data cube library's;
  it is the parameter \<open>dc_load\<close>, applied to the product and the query (the other
  keyword arguments are not used by \<open>get_scene_metadata\<close>).
\<close>

definition build_query ::
  "string option \<Rightarrow> string option \<Rightarrow> (int \<times> int) option \<Rightarrow> (rat \<times> rat) option
     \<Rightarrow> (rat \<times> rat) option \<Rightarrow> string option \<Rightarrow> query" where
  "build_query product_type platform time longitude latitude crs =
     (let query = Map.empty;
          query = (case product_type of None \<Rightarrow> query
                   | Some p \<Rightarrow> query(''product_type'' \<mapsto> QName p));
          query = (case platform of None \<Rightarrow> query
                   | Some p \<Rightarrow> query(''platform'' \<mapsto> QName p));
          query = (case time of None \<Rightarrow> query
                   | Some t \<Rightarrow> query(''time'' \<mapsto> QTimes (fst t) (snd t)));
          query = (if longitude \<noteq> None \<and> latitude \<noteq> None
                   then query(''longitude'' \<mapsto> QBounds (fst (the longitude)) (snd (the longitude)),
                              ''latitude'' \<mapsto> QBounds (fst (the latitude)) (snd (the latitude)))
                   else query);
          query = (case crs of None \<Rightarrow> query
                   | Some c \<Rightarrow> query(''crs'' \<mapsto> QName c))
      in query)"

definition get_dataset_by_extent ::
  "(string \<Rightarrow> query \<Rightarrow> loaded_dataset) \<Rightarrow> string \<Rightarrow> string option \<Rightarrow> string option
     \<Rightarrow> (int \<times> int) option \<Rightarrow> (rat \<times> rat) option \<Rightarrow> (rat \<times> rat) option \<Rightarrow> string option
     \<Rightarrow> loaded_dataset" where
  "get_dataset_by_extent dc_load product product_type platform time longitude latitude crs =
     dc_load product (build_query product_type platform time longitude latitude crs)"

text \<open>
  The values of the returned dictionary: numbers, times (in milliseconds, after
  \<^verbatim>\<open>astype('M8[ms]')\<close>), pairs and dictionaries.
\<close>

datatype meta_value =
  MInt int | MNum rat | MTime int | MTuple meta_value meta_value
  | MDict "(string \<times> meta_value) list"

text \<open>
  \<^verbatim>\<open>
  dataset = self.get_dataset_by_extent(platform=platform, product=product,
      longitude=longitude, latitude=latitude, crs=crs, time=time, dask_chunks={})
  if not dataset:
      return {'lat_extents': (0, 0), 'lon_extents': (0, 0), 'time_extents': (0, 0),
              'scene_count': 0, 'pixel_count': 0, 'tile_count': 0, 'storage_units': {}}
  lon_min, lat_min, lon_max, lat_max = dataset.geobox.extent.envelope
  return {
      'lat_extents': (lat_min, lat_max),
      'lon_extents': (lon_min, lon_max),
      'time_extents': (dataset.time[0].values.astype('M8[ms]').tolist(),
                       dataset.time[-1].values.astype('M8[ms]').tolist()),
      'scene_count': dataset.time.size,
      'pixel_count': dataset.geobox.shape[0] * dataset.geobox.shape[1],
  }
  \<close>
  Reading the geobox of a dataset that has none raises AttributeError, and the first time
  of an empty time coordinate raises IndexError.
\<close>

definition get_scene_metadata ::
  "(string \<Rightarrow> query \<Rightarrow> loaded_dataset) \<Rightarrow> string option \<Rightarrow> string \<Rightarrow> (rat \<times> rat) option
     \<Rightarrow> (rat \<times> rat) option \<Rightarrow> string option \<Rightarrow> (int \<times> int) option
     \<Rightarrow> py_error + (string \<rightharpoonup> meta_value)" where
  "get_scene_metadata dc_load platform product longitude latitude crs time =
     (let dataset = get_dataset_by_extent dc_load product None platform time longitude latitude crs
      in if variable_names dataset = [] then
           Inr [''lat_extents'' \<mapsto> MTuple (MInt 0) (MInt 0),
                ''lon_extents'' \<mapsto> MTuple (MInt 0) (MInt 0),
                ''time_extents'' \<mapsto> MTuple (MInt 0) (MInt 0),
                ''scene_count'' \<mapsto> MInt 0,
                ''pixel_count'' \<mapsto> MInt 0,
                ''tile_count'' \<mapsto> MInt 0,
                ''storage_units'' \<mapsto> MDict []]
         else
           (case geobox_of dataset of
              None \<Rightarrow> Inl AttributeError
            | Some gb \<Rightarrow>
                (case envelope gb of (lon_min, lat_min, lon_max, lat_max) \<Rightarrow>
                   if time_coord dataset = [] then Inl IndexError
                   else
                     Inr [''lat_extents'' \<mapsto> MTuple (MNum lat_min) (MNum lat_max),
                          ''lon_extents'' \<mapsto> MTuple (MNum lon_min) (MNum lon_max),
                          ''time_extents'' \<mapsto>
                             MTuple (MTime (hd (time_coord dataset) div 1000000))
                                    (MTime (last (time_coord dataset) div 1000000)),
                          ''scene_count'' \<mapsto> MInt (int (length (time_coord dataset))),
                          ''pixel_count'' \<mapsto> MInt (int (fst (gb_shape gb) * snd (gb_shape gb)))])))"

section \<open>dc_utilities: time series analysis\<close>

text \<open>
  The dataset a time series analysis reads: data variables with the dimensions
  \<open>(time, latitude, longitude)\<close>, each a list over time of grids in row-major order.
  After \<^verbatim>\<open>astype('float')\<close> the values are floating-point numbers; here they are
  finite and idealised as rationals, so sums are exact.
\<close>

record ts_dataset =
  ts_latitude :: "rat list"
  ts_longitude :: "rat list"
  ts_time :: "int list"
  ts_data_vars :: "(string \<times> rat list list) list"













section \<open>dc_utilities: the compositing reducers\<close>























section \<open>dc_ndvi_anomaly: compute_ndvi_anomaly\<close>

text \<open>
  The baseline is a dataset over time, the scene a dataset on the grid; the clear masks
  are boolean arrays of the same shapes, or \<^verbatim>\<open>None\<close>. The result holds four arrays
  on the grid of the scene.
\<close>

record ndvi_anomaly =
  an_coords :: coordinates
  scene_ndvi :: "fval list"
  baseline_ndvi :: "fval list"
  ndvi_difference :: "fval list"
  ndvi_percentage_change :: "fval list"

text \<open>
  \<^verbatim>\<open>data.where((data != no_data) & msk)\<close> on one array: the value where it is not
  \<open>no_data\<close> and the mask is set, NaN elsewhere. The arrays have the same shape.
\<close>

definition where_valid :: "rat \<Rightarrow> rat list \<Rightarrow> bool list \<Rightarrow> fval list" where
  "where_valid no_data vs msk = map2 (\<lambda>v m. if v \<noteq> no_data \<and> m then Fin v else NaN) vs msk"

text \<open>\<^verbatim>\<open>(nir - red) / (nir + red)\<close> on two arrays.\<close>

definition ndvi_of :: "fval list \<Rightarrow> fval list \<Rightarrow> fval list" where
  "ndvi_of nir red = map2 (\<lambda>n r. fdiv (fsub n r) (fadd n r)) nir red"

text \<open>\<^verbatim>\<open>a.values[~np.isfinite(a.values)] = no_data\<close>\<close>

definition nonfinite_to :: "rat \<Rightarrow> fval list \<Rightarrow> fval list" where
  "nonfinite_to no_data a = map (\<lambda>v. case v of Fin x \<Rightarrow> Fin x | _ \<Rightarrow> Fin no_data) a"

text \<open>
  \<^verbatim>\<open>
  assert selected_scene_clear_mask is not None and baseline_clear_mask is not None, "..."
  baseline_data = baseline_data.where((baseline_data != no_data) & baseline_clear_mask)
  baseline_ndvi = (baseline_data.nir - baseline_data.red) / (baseline_data.nir + baseline_data.red)
  median_ndvi = baseline_ndvi.median('time')
  water_class = wofs_classify(scene_data, clean_mask=selected_scene_clear_mask, mosaic=True).wofs
  scene_cleaned = scene_data.copy(deep=True).where((scene_data != no_data) & (water_class == 0))
  scene_ndvi = (scene_cleaned.nir - scene_cleaned.red) / (scene_cleaned.nir + scene_cleaned.red)
  ndvi_difference = scene_ndvi - median_ndvi
  ndvi_percentage_change = (scene_ndvi - median_ndvi) / median_ndvi
  scene_ndvi.values[~np.isfinite(scene_ndvi.values)] = no_data
  ndvi_difference.values[~np.isfinite(ndvi_difference.values)] = no_data
  ndvi_percentage_change.values[~np.isfinite(ndvi_percentage_change.values)] = no_data
  \<close>
  and the result is the dataset of the four arrays. The function returns its result or
  the exception together with the list of the inputs that its statements have read, in
  order. The median over time is the array library's and \<open>wofs_classify\<close> is defined
  in another module; both are parameters, \<open>wofs_classify\<close> giving the array
  \<^verbatim>\<open>.wofs\<close> of its result or the exception it raises.
\<close>

definition compute_ndvi_anomaly ::
  "(fval list list \<Rightarrow> fval list) \<Rightarrow> (rat dataset \<Rightarrow> bool list \<Rightarrow> py_error + fval list)
     \<Rightarrow> ts_dataset \<Rightarrow> rat dataset \<Rightarrow> bool list list option \<Rightarrow> bool list option \<Rightarrow> rat
     \<Rightarrow> (py_error + ndvi_anomaly) \<times> string list" where
  "compute_ndvi_anomaly median_time wofs_classify baseline_data scene_data
       baseline_clear_mask selected_scene_clear_mask no_data =
     (if \<not> (selected_scene_clear_mask \<noteq> None \<and> baseline_clear_mask \<noteq> None)
      then (Inl AssertionError, [])
      else
        (let baseline =
               map (\<lambda>kv. (fst kv, map2 (where_valid no_data) (snd kv) (the baseline_clear_mask)))
                 (ts_data_vars baseline_data);
             reads = [''baseline_data'']
         in case map_of baseline ''nir'' of
              None \<Rightarrow> (Inl AttributeError, reads)
            | Some b_nir \<Rightarrow>
           (case map_of baseline ''red'' of
              None \<Rightarrow> (Inl AttributeError, reads)
            | Some b_red \<Rightarrow>
           (let median_ndvi = median_time (map2 ndvi_of b_nir b_red);
                reads = reads @ [''scene_data'']
            in case wofs_classify scene_data (the selected_scene_clear_mask) of
                 Inl e \<Rightarrow> (Inl e, reads)
               | Inr water_class \<Rightarrow>
              (let scene_cleaned =
                     map (\<lambda>kv. (fst kv,
                            where_valid no_data (snd kv) (map (\<lambda>w. w = Fin 0) water_class)))
                       (data_vars scene_data);
                   reads = reads @ [''scene_data'']
               in case map_of scene_cleaned ''nir'' of
                    None \<Rightarrow> (Inl AttributeError, reads)
                  | Some s_nir \<Rightarrow>
                 (case map_of scene_cleaned ''red'' of
                    None \<Rightarrow> (Inl AttributeError, reads)
                  | Some s_red \<Rightarrow>
                     (let s_ndvi = ndvi_of s_nir s_red;
                          difference = map2 fsub s_ndvi median_ndvi;
                          percentage_change = map2 fdiv (map2 fsub s_ndvi median_ndvi) median_ndvi
                      in (Inr \<lparr>an_coords = ds_coords scene_data,
                               scene_ndvi = nonfinite_to no_data s_ndvi,
                               baseline_ndvi = median_ndvi,
                               ndvi_difference = nonfinite_to no_data difference,
                               ndvi_percentage_change = nonfinite_to no_data percentage_change\<rparr>,
                          reads))))))))"

section \<open>Verified properties\<close>

subsection \<open>Clean mask\<close>

lemma reshape_ok: "length xs = prod_list shp \<Longrightarrow> reshape xs shp = Inr \<lparr>shape = shp, flat = xs\<rparr>"
  by (simp add: reshape_def)

lemma in1d_length: "length (in1d a b iv) = length a"
  by (simp add: in1d_def)

lemma in1d_nth: "i < length a \<Longrightarrow> in1d a b True ! i = (a ! i \<notin> set b)"
  by (simp add: in1d_def)

text \<open>
  Claim C8. For every well-formed cfmask array and every \<open>no_data\<close> value,
  \<open>create_cfmask_clean_mask\<close> returns a boolean array of the same shape that is
  \<open>True\<close> at exactly the pixels whose code is none of 2 (cloud shadow), 3 (snow),
  4 (cloud), 255 (fill) or \<open>no_data\<close>. On an array that holds cfmask codes (or
  \<open>no_data\<close>) only, these are clear (0) and water (1) pixels only.
\<close>

theorem create_cfmask_clean_mask_correct:
  assumes "wf_ndarray cfmask"
  shows "\<exists>m. create_cfmask_clean_mask cfmask no_data = Inr m
           \<and> shape m = shape cfmask
           \<and> length (flat m) = length (flat cfmask)
           \<and> (\<forall>i < length (flat cfmask).
                 flat m ! i = (flat cfmask ! i \<notin> {2, 3, 4, 255, no_data}))
           \<and> (set (flat cfmask) \<subseteq> set cfmask_codes \<union> {no_data} \<longrightarrow>
                (\<forall>i < length (flat cfmask). flat m ! i \<longrightarrow> flat cfmask ! i \<in> {0, 1}))"
proof -
  let ?m = "\<lparr>shape = shape cfmask, flat = in1d (flat cfmask) [2, 3, 4, 255, no_data] True\<rparr>"
  have r: "create_cfmask_clean_mask cfmask no_data = Inr ?m"
    using assms by (simp add: create_cfmask_clean_mask_def wf_ndarray_def reshape_ok in1d_length)
  have n: "\<forall>i < length (flat cfmask). flat ?m ! i = (flat cfmask ! i \<notin> {2, 3, 4, 255, no_data})"
    by (simp add: in1d_nth)
  have g: "set (flat cfmask) \<subseteq> set cfmask_codes \<union> {no_data} \<longrightarrow>
                (\<forall>i < length (flat cfmask). flat ?m ! i \<longrightarrow> flat cfmask ! i \<in> {0, 1})"
  proof (intro impI allI)
    fix i assume s: "set (flat cfmask) \<subseteq> set cfmask_codes \<union> {no_data}"
      and i: "i < length (flat cfmask)" and t: "flat ?m ! i"
    from i have "flat cfmask ! i \<in> set (flat cfmask)" by simp
    with s have "flat cfmask ! i \<in> {0, 1, 2, 3, 4, 255, no_data}"
      by (auto simp: cfmask_codes_def)
    moreover from t i have "flat cfmask ! i \<notin> {2, 3, 4, 255, no_data}"
      by (simp add: in1d_nth)
    ultimately show "flat cfmask ! i \<in> {0, 1}" by auto
  qed
  show ?thesis using r n g by (simp add: in1d_length)
qed

theorem create_cfmask_clean_mask_witness:
  "create_cfmask_clean_mask \<lparr>shape = [2, 3], flat = [0, 1, 2, 4, 255, -9999]\<rparr> (-9999)
     = Inr \<lparr>shape = [2, 3], flat = [True, True, False, False, False, False]\<rparr>"
proof -
  have w: "wf_ndarray \<lparr>shape = [2, 3], flat = [0, 1, 2, 4, 255, -9999 :: int]\<rparr>"
    by (simp add: wf_ndarray_def)
  from create_cfmask_clean_mask_correct [OF w, of "-9999"]
  show ?thesis
    by (simp add: create_cfmask_clean_mask_def reshape_def in1d_def)
qed

subsection \<open>Rounding\<close>

lemma pow2_mono: "a \<le> b \<Longrightarrow> (2::rat) powi a \<le> 2 powi b"
  by (rule power_int_increasing) simp_all

lemma pow2_strict_mono: "a < b \<Longrightarrow> (2::rat) powi a < 2 powi b"
  by (simp add: power_int_strict_increasing)

lemma pow2_less_cancel: "(2::rat) powi a < 2 powi b \<Longrightarrow> a < b"
proof (rule ccontr)
  assume l: "(2::rat) powi a < 2 powi b" and "\<not> a < b"
  then have "b \<le> a" by simp
  then have "(2::rat) powi b \<le> 2 powi a" by (rule pow2_mono)
  with l show False by simp
qed

lemma pow2_add: "(2::rat) powi (a + b) = 2 powi a * 2 powi b"
  by (simp add: power_int_add)

lemma pow2_pos: "0 < (2::rat) powi a"
  by simp

lemma ilog2_bounds:
  "0 < x \<Longrightarrow> 2 powi (ilog2 x) \<le> x \<and> x < 2 powi (ilog2 x + 1)"
proof (induction x rule: ilog2.induct)
  case (1 x)
  show ?case
  proof (cases "x < 1")
    case True
    have e: "ilog2 x = ilog2 (2 * x) - 1"
      using "1.prems" True by (subst ilog2.simps) simp
    have "2 powi ilog2 (2 * x) \<le> 2 * x \<and> 2 * x < 2 powi (ilog2 (2 * x) + 1)"
      using "1.IH"(1) "1.prems" True by simp
    then show ?thesis
      unfolding e by (simp add: power_int_diff power_int_add)
  next
    case False
    show ?thesis
    proof (cases "2 \<le> x")
      case True
      have e: "ilog2 x = ilog2 (x / 2) + 1"
        using "1.prems" True False by (subst ilog2.simps) simp
      have "2 powi ilog2 (x / 2) \<le> x / 2 \<and> x / 2 < 2 powi (ilog2 (x / 2) + 1)"
        using "1.IH"(2) "1.prems" True False by simp
      then show ?thesis
        unfolding e by (simp add: power_int_add)
    next
      case f2: False
      have "ilog2 x = 0" using "1.prems" False f2 by (subst ilog2.simps) simp
      then show ?thesis using False f2 by simp
    qed
  qed
qed

lemma ilog2_unique:
  assumes "0 < x" and "2 powi e \<le> x" and "x < 2 powi (e + 1)"
  shows "ilog2 x = e"
proof -
  note b = ilog2_bounds [OF assms(1)]
  have "2 powi e < (2::rat) powi (ilog2 x + 1)" using assms(2) b by linarith
  then have 1: "e < ilog2 x + 1" by (rule pow2_less_cancel)
  have "2 powi (ilog2 x) < (2::rat) powi (e + 1)" using assms(3) b by linarith
  then have 2: "ilog2 x < e + 1" by (rule pow2_less_cancel)
  from 1 2 show ?thesis by simp
qed

lemma ilog2_mono:
  assumes "0 < x" and "x \<le> y"
  shows "ilog2 x \<le> ilog2 y"
proof -
  have y: "0 < y" using assms by simp
  have "2 powi (ilog2 x) < (2::rat) powi (ilog2 y + 1)"
    using ilog2_bounds [OF assms(1)] ilog2_bounds [OF y] assms(2) by linarith
  then have "ilog2 x < ilog2 y + 1" by (rule pow2_less_cancel)
  then show ?thesis by simp
qed

lemma ilog2_less:
  assumes "0 < x" and "x < 2 powi e"
  shows "ilog2 x < e"
proof -
  have "2 powi (ilog2 x) < (2::rat) powi e"
    using ilog2_bounds [OF assms(1)] assms(2) by linarith
  then show ?thesis by (rule pow2_less_cancel)
qed

lemma ilog2_ge:
  assumes "2 powi e \<le> x"
  shows "e \<le> ilog2 x"
proof -
  have x: "0 < x" using assms zero_less_power_int [of "2::rat" e] by linarith
  have "2 powi e < (2::rat) powi (ilog2 x + 1)"
    using ilog2_bounds [OF x] assms by linarith
  then have "e < ilog2 x + 1" by (rule pow2_less_cancel)
  then show ?thesis by simp
qed

lemma rhe_floor_le: "\<lfloor>y\<rfloor> \<le> round_half_even y"
  by (simp add: round_half_even_def Let_def)

lemma rhe_le_floor_Suc: "round_half_even y \<le> \<lfloor>y\<rfloor> + 1"
  by (simp add: round_half_even_def Let_def)

lemma rhe_of_int: "round_half_even (of_int m) = m"
  by (simp add: round_half_even_def Let_def)

lemma rhe_lower: "of_int m \<le> y \<Longrightarrow> m \<le> round_half_even y"
proof -
  assume "of_int m \<le> y"
  then have "m \<le> \<lfloor>y\<rfloor>" by (simp add: le_floor_iff)
  with rhe_floor_le [of y] show ?thesis by linarith
qed

lemma rhe_upper: "y \<le> of_int m \<Longrightarrow> round_half_even y \<le> m"
proof (cases "y = of_int m")
  case True
  then show ?thesis by (simp add: rhe_of_int)
next
  case False
  assume "y \<le> of_int m"
  with False have "y < of_int m" by simp
  then have "\<lfloor>y\<rfloor> < m" by (simp add: floor_less_iff)
  with rhe_le_floor_Suc [of y] show ?thesis by linarith
qed

lemma rhe_above_half: "of_int m + 1 / 2 < y \<Longrightarrow> m + 1 \<le> round_half_even y"
proof -
  assume a: "of_int m + 1 / 2 < y"
  then have "of_int m \<le> y" by linarith
  then have f: "m \<le> \<lfloor>y\<rfloor>" by (simp add: le_floor_iff)
  show ?thesis
  proof (cases "\<lfloor>y\<rfloor> = m")
    case True
    then have "1 / 2 < y - of_int \<lfloor>y\<rfloor>" using a by simp
    then show ?thesis using True by (simp add: round_half_even_def Let_def)
  next
    case False
    with f have "m + 1 \<le> \<lfloor>y\<rfloor>" by simp
    with rhe_floor_le [of y] show ?thesis by linarith
  qed
qed

lemma rhe_below_half: "y < of_int m + 1 / 2 \<Longrightarrow> round_half_even y \<le> m"
proof -
  assume a: "y < of_int m + 1 / 2"
  then have "y < of_int (m + 1)" by simp
  then have f: "\<lfloor>y\<rfloor> < m + 1" by (simp only: floor_less_iff)
  show ?thesis
  proof (cases "\<lfloor>y\<rfloor> = m")
    case True
    then have "y - of_int \<lfloor>y\<rfloor> < 1 / 2" using a by simp
    then show ?thesis using True by (simp add: round_half_even_def Let_def)
  next
    case False
    with f have "\<lfloor>y\<rfloor> + 1 \<le> m" by simp
    with rhe_le_floor_Suc [of y] show ?thesis by linarith
  qed
qed

lemmas round_fmt_alt = round_fmt_def

lemma round_fmt_nonneg: "0 \<le> x \<Longrightarrow> 0 \<le> round_fmt f x"
proof -
  assume x: "0 \<le> x"
  have "of_int 0 \<le> x / 2 powi ulp_exp f x" using x by simp
  then have "0 \<le> round_half_even (x / 2 powi ulp_exp f x)" by (rule rhe_lower)
  then show ?thesis by (simp add: round_fmt_alt)
qed

lemma round_fmt_nonpos: "x \<le> 0 \<Longrightarrow> round_fmt f x \<le> 0"
proof -
  assume x: "x \<le> 0"
  have "x / 2 powi ulp_exp f x \<le> of_int 0" using x by (simp add: divide_nonpos_pos)
  then have "round_half_even (x / 2 powi ulp_exp f x) \<le> 0" by (rule rhe_upper)
  then show ?thesis by (simp add: round_fmt_alt mult_nonpos_nonneg)
qed

lemma round_fmt_exact:
  assumes "x / 2 powi ulp_exp f x = of_int m"
  shows "round_fmt f x = x"
proof (cases "x = 0")
  case True
  then show ?thesis by (simp add: round_fmt_def)
next
  case False
  have "of_int (round_half_even (x / 2 powi ulp_exp f x)) * 2 powi ulp_exp f x
          = (x / 2 powi ulp_exp f x) * 2 powi ulp_exp f x"
    by (simp add: assms rhe_of_int)
  also have "\<dots> = x" by simp
  finally show ?thesis using False by (simp add: round_fmt_alt)
qed

lemma round_fmt_underflow:
  assumes "0 \<le> x" and "x < 2 powi (emin f - int (precision f))"
  shows "round_fmt f x = 0"
proof (cases "x = 0")
  case True
  then show ?thesis by (simp add: round_fmt_def)
next
  case False
  then have x: "0 < x" using assms(1) by simp
  have "2 powi (emin f - int (precision f)) \<le> (2::rat) powi (emin f)"
    by (rule pow2_mono) simp
  then have "x < 2 powi (emin f)" using assms(2) by linarith
  then have "ilog2 \<bar>x\<bar> < emin f" using x by (simp add: ilog2_less)
  then have u: "ulp_exp f x = emin f - int (precision f) + 1" by (simp add: ulp_exp_def)
  have "x / 2 powi ulp_exp f x < 2 powi (emin f - int (precision f)) / 2 powi ulp_exp f x"
    using assms(2) by (simp add: divide_strict_right_mono)
  also have "\<dots> = 1 / 2" by (simp add: u power_int_add)
  finally have "x / 2 powi ulp_exp f x < of_int 0 + 1 / 2" by simp
  then have "round_half_even (x / 2 powi ulp_exp f x) \<le> 0" by (rule rhe_below_half)
  moreover have "0 \<le> round_half_even (x / 2 powi ulp_exp f x)"
    using x by (intro rhe_lower) simp
  ultimately show ?thesis by (simp add: round_fmt_alt)
qed

lemma round_fmt_pos:
  assumes "2 powi (emin f - int (precision f)) < x"
  shows "0 < round_fmt f x"
proof -
  have x: "0 < x" using assms pow2_pos [of "emin f - int (precision f)"] by linarith
  have p: "0 < precision f" by (cases f) simp_all
  have "1 \<le> round_half_even (x / 2 powi ulp_exp f x)"
  proof (cases "ilog2 \<bar>x\<bar> < emin f")
    case True
    then have u: "ulp_exp f x = emin f - int (precision f) + 1" by (simp add: ulp_exp_def)
    have "2 powi (emin f - int (precision f)) / 2 powi ulp_exp f x < x / 2 powi ulp_exp f x"
      using assms by (simp add: divide_strict_right_mono)
    moreover have "2 powi (emin f - int (precision f)) / (2::rat) powi ulp_exp f x = 1 / 2"
      by (simp add: u power_int_add)
    ultimately have "of_int 0 + 1 / 2 < x / 2 powi ulp_exp f x" by simp
    then have "0 + 1 \<le> round_half_even (x / 2 powi ulp_exp f x)" by (rule rhe_above_half)
    then show ?thesis by simp
  next
    case False
    then have u: "ulp_exp f x = ilog2 x - (int (precision f) - 1)"
      using x by (simp add: ulp_exp_def)
    have "2 powi (ilog2 x) \<le> x" using ilog2_bounds [OF x] by simp
    then have "2 powi (ilog2 x) / 2 powi ulp_exp f x \<le> x / 2 powi ulp_exp f x"
      by (simp add: divide_right_mono)
    moreover have "2 powi (ilog2 x) / (2::rat) powi ulp_exp f x = 2 powi (int (precision f) - 1)"
      by (simp add: u power_int_diff)
    moreover have "(1::rat) \<le> 2 powi (int (precision f) - 1)"
      using pow2_mono [of 0 "int (precision f) - 1"] p by simp
    ultimately have "1 \<le> x / 2 powi ulp_exp f x" by linarith
    then have "of_int 1 \<le> x / 2 powi ulp_exp f x" by (simp only: of_int_1)
    then show ?thesis by (rule rhe_lower)
  qed
  then have "0 < (of_int (round_half_even (x / 2 powi ulp_exp f x)) :: rat)" by simp
  then show ?thesis using x by (simp add: round_fmt_alt)
qed

lemma pow2_of_int: "0 \<le> a \<Longrightarrow> (2::rat) powi a = of_int (2 ^ nat a)"
  by (simp add: power_int_def)

lemma div_pow2_neg: "a \<le> 0 \<Longrightarrow> x / (2::rat) powi a = x * of_int (2 ^ nat (- a))"
proof -
  assume a: "a \<le> 0"
  have "x / (2::rat) powi a = x * 2 powi (- a)" by (simp add: power_int_minus field_simps)
  also have "\<dots> = x * of_int (2 ^ nat (- a))" using a by (simp add: pow2_of_int)
  finally show ?thesis .
qed

lemma emin_neg: "emin f < 0"
  by (cases f) simp_all

lemma precision_pos: "0 < precision f"
  by (cases f) simp_all

lemma round_fmt_of_int:
  assumes "\<bar>n\<bar> \<le> 2 ^ precision f"
  shows "round_fmt f (of_int n) = of_int n"
proof (cases "n = 0")
  case True
  then show ?thesis by (simp add: round_fmt_def)
next
  case False
  define x :: rat where "x = of_int n"
  have ax: "\<bar>x\<bar> = of_int \<bar>n\<bar>" by (simp add: x_def)
  have "1 \<le> \<bar>n\<bar>" using False by simp
  then have "(of_int 1 :: rat) \<le> of_int \<bar>n\<bar>" by (simp only: of_int_le_iff)
  then have x1: "(1::rat) \<le> \<bar>x\<bar>" by (simp add: ax)
  then have "2 powi 0 \<le> \<bar>x\<bar>" by simp
  then have e0: "0 \<le> ilog2 \<bar>x\<bar>" by (rule ilog2_ge)
  then have u: "ulp_exp f x = ilog2 \<bar>x\<bar> - (int (precision f) - 1)"
    using emin_neg [of f] by (simp add: ulp_exp_def)
  show ?thesis
  proof (cases "\<bar>n\<bar> = 2 ^ precision f")
    case True
    then have xe: "\<bar>x\<bar> = 2 powi (int (precision f))" unfolding ax by (simp add: power_int_def)
    have "ilog2 \<bar>x\<bar> = int (precision f)"
      by (rule ilog2_unique) (simp_all add: xe power_int_add)
    then have u1: "ulp_exp f x = 1" by (simp add: u)
    have "even \<bar>n\<bar>" using True precision_pos [of f] by simp
    then have "even n" by simp
    then obtain m where "n = 2 * m" by (elim evenE)
    then have "x = 2 * of_int m" by (simp add: x_def)
    then have "x / 2 powi 1 = of_int m" by simp
    then have "x / 2 powi ulp_exp f x = of_int m" by (simp only: u1)
    then show ?thesis unfolding x_def [symmetric] by (rule round_fmt_exact)
  next
    case ne: False
    with assms have "\<bar>n\<bar> < 2 ^ precision f" by simp
    then have "(of_int \<bar>n\<bar> :: rat) < of_int (2 ^ precision f)" by (simp only: of_int_less_iff)
    then have "\<bar>x\<bar> < 2 powi (int (precision f))" unfolding ax by (simp add: power_int_def)
    moreover have "0 < \<bar>x\<bar>" using x1 by linarith
    ultimately have "ilog2 \<bar>x\<bar> < int (precision f)" by (rule ilog2_less [rotated])
    then have "ulp_exp f x \<le> 0" by (simp add: u)
    then have "x / 2 powi ulp_exp f x = x * of_int (2 ^ nat (- ulp_exp f x))"
      by (rule div_pow2_neg)
    also have "\<dots> = of_int (n * 2 ^ nat (- ulp_exp f x))" by (simp add: x_def)
    finally show ?thesis unfolding x_def [symmetric] by (rule round_fmt_exact)
  qed
qed

lemma round_fmt_le:
  assumes "0 \<le> x" and "x \<le> c" and "c / 2 powi ulp_exp f c = of_int m"
  shows "round_fmt f x \<le> c"
proof (cases "x = 0")
  case True
  then show ?thesis using assms by (simp add: round_fmt_def)
next
  case False
  then have x: "0 < x" using assms(1) by simp
  then have c: "0 < c" using assms(2) by simp
  have "ilog2 \<bar>x\<bar> \<le> ilog2 \<bar>c\<bar>" using x c assms(2) by (simp add: ilog2_mono)
  then have le: "ulp_exp f x \<le> ulp_exp f c" by (simp add: ulp_exp_def)
  define k where "k = nat (ulp_exp f c - ulp_exp f x)"
  have "c / 2 powi ulp_exp f x = (c / 2 powi ulp_exp f c) * 2 powi (ulp_exp f c - ulp_exp f x)"
    by (simp add: power_int_diff)
  also have "\<dots> = of_int m * of_int (2 ^ k)"
    using le by (simp add: assms(3) pow2_of_int k_def)
  finally have ci: "c / 2 powi ulp_exp f x = of_int (m * 2 ^ k)" by simp
  have "x / 2 powi ulp_exp f x \<le> c / 2 powi ulp_exp f x"
    using assms(2) by (simp add: divide_right_mono)
  then have "x / 2 powi ulp_exp f x \<le> of_int (m * 2 ^ k)" by (simp only: ci)
  then have "round_half_even (x / 2 powi ulp_exp f x) \<le> m * 2 ^ k" by (rule rhe_upper)
  then have "(of_int (round_half_even (x / 2 powi ulp_exp f x)) :: rat) \<le> of_int (m * 2 ^ k)"
    by (simp only: of_int_le_iff)
  then have "of_int (round_half_even (x / 2 powi ulp_exp f x)) * 2 powi ulp_exp f x
               \<le> of_int (m * 2 ^ k) * (2::rat) powi ulp_exp f x"
    by (intro mult_right_mono) simp_all
  also have "\<dots> = c" by (simp only: ci [symmetric]) simp
  finally show ?thesis using False by (simp add: round_fmt_alt)
qed

lemma ulp_exp_one: "ulp_exp f 1 = - (int (precision f) - 1)"
proof -
  have "ilog2 \<bar>1\<bar> = 0" by (intro ilog2_unique) simp_all
  then show ?thesis using emin_neg [of f] by (simp add: ulp_exp_def)
qed

lemma round_fmt_le_one:
  assumes "0 \<le> x" and "x \<le> 1"
  shows "round_fmt f x \<le> 1"
proof -
  have "0 \<le> int (precision f) - 1" using precision_pos [of f] by linarith
  then have "(2::rat) powi (int (precision f) - 1) = of_int (2 ^ nat (int (precision f) - 1))"
    by (rule pow2_of_int)
  moreover have "(1::rat) / 2 powi (- (int (precision f) - 1)) = 2 powi (int (precision f) - 1)"
    by (simp only: power_int_minus) (simp add: field_simps)
  ultimately have "(1::rat) / 2 powi ulp_exp f 1 = of_int (2 ^ nat (int (precision f) - 1))"
    by (simp only: ulp_exp_one)
  with assms show ?thesis by (rule round_fmt_le)
qed

lemma round_fmt_just_above_one:
  assumes "1 \<le> x" and "x < 1 + 2 powi (- 53)"
  shows "round_fmt Binary64 x = 1"
proof -
  have "2 powi (- 53) < (1::rat)" by (simp add: power_int_def power_divide)
  then have "x < 2 powi (0 + 1)" using assms(2) by simp
  moreover have "2 powi 0 \<le> x" using assms(1) by simp
  moreover have x: "0 < x" using assms(1) by simp
  ultimately have "ilog2 x = 0" by (intro ilog2_unique)
  then have u: "ulp_exp Binary64 x = - 52" using x by (simp add: ulp_exp_def)
  have d: "x / 2 powi ulp_exp Binary64 x = x * 4503599627370496"
    by (simp add: u power_int_def power_divide)
  have "x * 4503599627370496 < of_int 4503599627370496 + 1 / 2"
    using assms(2) by (simp add: power_int_def power_divide)
  then have "round_half_even (x / 2 powi ulp_exp Binary64 x) \<le> 4503599627370496"
    unfolding d by (rule rhe_below_half)
  moreover have "of_int 4503599627370496 \<le> x * 4503599627370496" using assms(1) by simp
  then have "4503599627370496 \<le> round_half_even (x / 2 powi ulp_exp Binary64 x)"
    unfolding d by (rule rhe_lower)
  ultimately have "round_half_even (x / 2 powi ulp_exp Binary64 x) = 4503599627370496" by simp
  then show ?thesis using x by (simp add: round_fmt_alt u power_int_def power_divide)
qed

lemma ulp_exp_pow2: "emin f \<le> k \<Longrightarrow> ulp_exp f (2 powi k) = k - (int (precision f) - 1)"
proof -
  assume k: "emin f \<le> k"
  have "ilog2 \<bar>2 powi k\<bar> = k" by (intro ilog2_unique) (simp_all add: power_int_add)
  then show ?thesis using k by (simp add: ulp_exp_def)
qed

lemma round_fmt_le_pow2:
  assumes "0 \<le> x" and "x \<le> 2 powi k" and "emin f \<le> k"
  shows "round_fmt f x \<le> 2 powi k"
proof -
  have "0 \<le> int (precision f) - 1" using precision_pos [of f] by linarith
  then have "(2::rat) powi (int (precision f) - 1) = of_int (2 ^ nat (int (precision f) - 1))"
    by (rule pow2_of_int)
  moreover have "(2::rat) powi k / 2 powi (k - (int (precision f) - 1)) = 2 powi (int (precision f) - 1)"
    by (simp add: power_int_diff)
  ultimately have "(2::rat) powi k / 2 powi ulp_exp f (2 powi k) = of_int (2 ^ nat (int (precision f) - 1))"
    by (simp only: ulp_exp_pow2 [OF assms(3)])
  with assms(1,2) show ?thesis by (rule round_fmt_le)
qed

lemma rnd_finite:
  assumes "\<bar>round_fmt f x\<bar> < 2 powi (emax f + 1)"
  shows "rnd f x = Fin (round_fmt f x)"
  using assms by (simp add: rnd_def Let_def)

text \<open>The quotient of two positive integers, the dividend below \<open>2 ^ 53\<close>.\<close>

lemma ceiling_round_quotient:
  assumes tc: "0 < tc" and n: "0 < n" and nb: "n < 2 ^ 53"
    and nz: "round_fmt Binary64 (of_int n / of_int tc) \<noteq> 0"
  shows "\<lceil>round_fmt Binary64 (of_int n / of_int tc)\<rceil> = \<lceil>(of_int n / of_int tc :: rat)\<rceil>"
proof -
  define x :: rat where "x = of_int n / of_int tc"
  define q where "q = round_fmt Binary64 x"
  have xpos: "0 < x" using tc n by (simp add: x_def)
  have tcr: "(0::rat) < of_int tc" using tc by simp
  have q0: "0 \<le> q" unfolding q_def using xpos by (intro round_fmt_nonneg) simp
  with nz have qpos: "0 < q" by (simp add: q_def x_def)
  show ?thesis
  proof (cases "x < 1")
    case True
    then have "q \<le> 1" unfolding q_def using xpos by (intro round_fmt_le_one) simp_all
    with qpos have "\<lceil>q\<rceil> = 1" by (intro ceiling_unique) simp_all
    moreover have "\<lceil>x\<rceil> = 1" using True xpos by (intro ceiling_unique) simp_all
    ultimately show ?thesis by (simp add: q_def x_def)
  next
    case False
    then have x1: "1 \<le> x" by simp
    define e where "e = ilog2 x"
    define u where "u = ulp_exp Binary64 x"
    have "2 powi 0 \<le> x" using x1 by simp
    then have e0: "0 \<le> e" unfolding e_def by (rule ilog2_ge)
    have lo: "2 powi e \<le> x" and hi: "x < 2 powi (e + 1)"
      using ilog2_bounds [OF xpos] by (simp_all add: e_def)
    have xn: "x \<le> of_int n"
    proof -
      have "(1::rat) \<le> of_int tc" using tc by simp
      then have "of_int n / of_int tc \<le> (of_int n :: rat) / 1"
        using n by (intro divide_left_mono) simp_all
      then show ?thesis by (simp add: x_def)
    qed
    have "(of_int n :: rat) < of_int (2 ^ 53)" using nb by (simp only: of_int_less_iff)
    then have n53: "(of_int n :: rat) < 2 powi 53" by (simp add: power_int_def)
    with xn have "x < 2 powi 53" by linarith
    then have "e < 53" unfolding e_def using xpos by (intro ilog2_less)
    have ud: "u = e - 52" using e0 xpos by (simp add: u_def ulp_exp_def e_def)
    then have u0: "u \<le> 0" using \<open>e < 53\<close> by simp
    define S :: int where "S = 2 ^ nat (- u)"
    have Spos: "0 < S" by (simp add: S_def)
    have dv: "y / 2 powi u = y * of_int S" for y :: rat
      using div_pow2_neg [OF u0] by (simp add: S_def)
    have ml: "2 powi u * (of_int S :: rat) = 1"
      using dv [of "2 powi u"] by simp
    define k where "k = \<lfloor>x\<rfloor>"
    have kx: "of_int k \<le> x" by (simp add: k_def)
    have xk: "x < of_int k + 1" unfolding k_def by linarith
    define r where "r = round_half_even (x / 2 powi u)"
    have qr: "q = of_int r * 2 powi u"
      using xpos by (simp add: q_def round_fmt_alt r_def u_def)
    have qS: "q * of_int S = of_int r"
      using ml by (simp add: qr mult.assoc)
    have Sr: "(0::rat) < of_int S" using Spos by simp
    have "of_int (k * S) \<le> x * of_int S" using kx Sr by simp
    then have "k * S \<le> r" unfolding r_def dv by (rule rhe_lower)
    then have "(of_int (k * S) :: rat) \<le> of_int r" by (simp only: of_int_le_iff)
    then have "of_int k * of_int S \<le> q * (of_int S :: rat)" by (simp add: qS)
    then have kq: "of_int k \<le> q" using Sr by simp
    have "x * of_int S \<le> of_int ((k + 1) * S)" using xk Sr by simp
    then have "r \<le> (k + 1) * S" unfolding r_def dv by (rule rhe_upper)
    then have "(of_int r :: rat) \<le> of_int ((k + 1) * S)" by (simp only: of_int_le_iff)
    then have "q * (of_int S :: rat) \<le> (of_int k + 1) * of_int S" by (simp add: qS)
    then have qk: "q \<le> of_int k + 1" using Sr by simp
    show ?thesis
    proof (cases "x = of_int k")
      case True
      then have "x / 2 powi ulp_exp Binary64 x = of_int (k * S)"
        using dv [of x] by (simp add: u_def)
      then have "round_fmt Binary64 x = x" by (rule round_fmt_exact)
      then show ?thesis by (simp add: x_def)
    next
      case False
      with kx have kx': "of_int k < x" by simp
      have cx: "\<lceil>x\<rceil> = k + 1" using kx' xk by (intro ceiling_unique) simp_all
      have "of_int k * of_int tc < (of_int n :: rat)"
        using kx' tcr by (simp add: x_def pos_less_divide_eq)
      then have "(of_int (k * tc) :: rat) < of_int n" by simp
      then have "k * tc < n" by (simp only: of_int_less_iff)
      then have "k * tc + 1 \<le> n" by simp
      then have "(of_int (k * tc + 1) :: rat) \<le> of_int n" by (simp only: of_int_le_iff)
      then have "of_int k * of_int tc + 1 \<le> (of_int n :: rat)" by simp
      then have "(of_int k * of_int tc + 1) / of_int tc \<le> x"
        using tcr by (simp add: x_def divide_right_mono)
      then have gap: "of_int k + 1 / of_int tc \<le> x"
        using tcr by (simp add: add_divide_distrib)
      have "2 powi e * of_int tc \<le> x * of_int tc" using lo tcr by simp
      also have "\<dots> = of_int n" using tcr by (simp add: x_def)
      also have "\<dots> < 2 powi 53" by (rule n53)
      finally have "2 powi e * of_int tc < (2::rat) powi 53" .
      moreover have "(2::rat) powi 53 = 2 powi e * (2 * of_int S)"
      proof -
        have S2: "(of_int S :: rat) = 2 powi (- u)" using u0 by (simp add: S_def pow2_of_int)
        have "53 = e + (1 + - u)" by (simp add: ud)
        then have "(2::rat) powi 53 = 2 powi (e + (1 + - u))" by (simp only:)
        also have "\<dots> = 2 powi e * (2 powi 1 * 2 powi (- u))" by (simp only: pow2_add)
        also have "\<dots> = 2 powi e * (2 * of_int S)" by (simp only: S2 power_int_1_right)
        finally show ?thesis .
      qed
      ultimately have "2 powi e * of_int tc < (2::rat) powi e * (2 * of_int S)" by (simp only:)
      then have "(of_int tc :: rat) < 2 * of_int S"
        by (simp only: mult_less_cancel_left_pos [OF pow2_pos])
      then have "1 / 2 < (of_int S :: rat) / of_int tc"
        using tcr by (simp add: pos_less_divide_eq)
      then have "of_int k * of_int S + 1 / 2 < (of_int k + 1 / of_int tc) * (of_int S :: rat)"
        by (simp add: algebra_simps)
      also have "\<dots> \<le> x * of_int S" using gap Sr by simp
      finally have "of_int (k * S) + 1 / 2 < x * of_int S" by simp
      then have "k * S + 1 \<le> r" unfolding r_def dv by (rule rhe_above_half)
      then have "(of_int (k * S + 1) :: rat) \<le> of_int r" by (simp only: of_int_le_iff)
      then have "of_int k * of_int S + 1 \<le> q * (of_int S :: rat)" by (simp add: qS)
      then have "of_int k * of_int S < q * (of_int S :: rat)" by linarith
      then have kq': "of_int k < q" using Sr by simp
      have "\<lceil>q\<rceil> = k + 1" using kq' qk by (intro ceiling_unique) simp_all
      with cx show ?thesis by (simp add: q_def x_def)
    qed
  qed
qed

subsection \<open>Chunking of the time axis\<close>

lemma py_range_pos:
  "0 < c \<Longrightarrow> py_range 0 (int n) (int c) = Inr (map (\<lambda>k. int (k * c)) [0 ..< (n + c - 1) div c])"
proof -
  assume c: "0 < c"
  have "(int n - 0 + int c - 1) div int c = int ((n + c - 1) div c)"
    using c by (simp add: zdiv_int of_nat_diff)
  then show ?thesis using c by (simp add: py_range_def)
qed

lemma py_slice_nonneg:
  "py_slice l (int a) (int a + int c) = take c (drop a l)"
  by (simp add: py_slice_def Let_def drop_take min_def nat_add_distrib) 

lemma chunks_pos:
  "0 < c \<Longrightarrow> chunks l (int c) = Inr (map (\<lambda>k. take c (drop (k * c) l)) [0 ..< (length l + c - 1) div c])"
proof -
  assume c: "0 < c"
  have "\<And>k. py_slice l (int (k * c)) (int (k * c) + int c) = take c (drop (k * c) l)"
    by (rule py_slice_nonneg)
  then show ?thesis
    using c by (simp add: chunks_def py_range_pos comp_def del: of_nat_mult)
qed

lemma chunks_zero: "chunks l 0 = Inl ValueError"
  by (simp add: chunks_def py_range_def)

lemma concat_runs:
  "concat (map (\<lambda>k. take c (drop (k * c) l)) [0 ..< m]) = take (m * c) l"
proof (induction m)
  case 0
  show ?case by simp
next
  case (Suc m)
  have "take (m * c) l @ take c (drop (m * c) l) = take (m * c + c) l"
    by (simp add: take_add)
  with Suc show ?case by (simp add: add.commute)
qed

lemma runs_cover: "0 < c \<Longrightarrow> length l \<le> ((length l + c - 1) div c) * c"
proof -
  assume c: "0 < c"
  have "(length l + c - 1) mod c < c" using c by simp
  moreover have "((length l + c - 1) div c) * c + (length l + c - 1) mod c = length l + c - 1"
    by simp
  ultimately show ?thesis by linarith
qed

lemma runs_last: "0 < c \<Longrightarrow> l \<noteq> [] \<Longrightarrow> ((length l + c - 1) div c - 1) * c < length l"
proof -
  assume c: "0 < c" and l: "l \<noteq> []"
  let ?m = "(length l + c - 1) div c"
  have a: "?m * c \<le> length l + c - 1" by simp
  have n: "0 < length l" using l by simp
  then have "c \<le> length l + c - 1" by linarith
  then have "0 < ?m" using c by (simp add: div_greater_zero_iff)
  then have b: "?m * c = (?m - 1) * c + c" by (cases ?m) simp_all
  from a b n show ?thesis by linarith
qed

lemma runs_shape:
  assumes "0 < c" and "l \<noteq> []"
    and "tr = map (\<lambda>k. take c (drop (k * c) l)) [0 ..< (length l + c - 1) div c]"
  shows "concat tr = l"
    and "tr \<noteq> []"
    and "\<forall>k. Suc k < length tr \<longrightarrow> length (tr ! k) = c"
    and "0 < length (last tr)" and "length (last tr) \<le> c"
proof -
  let ?m = "(length l + c - 1) div c"
  have len: "length tr = ?m" by (simp add: assms(3))
  have "0 < length l" using assms(2) by simp
  then have "c \<le> length l + c - 1" by linarith
  then have m: "0 < ?m" using assms(1) by (simp add: div_greater_zero_iff)
  show "concat tr = l"
    using runs_cover [OF assms(1), of l] by (simp add: assms(3) concat_runs)
  show ne: "tr \<noteq> []" using m len by auto
  show "\<forall>k. Suc k < length tr \<longrightarrow> length (tr ! k) = c"
  proof (intro allI impI)
    fix k assume k: "Suc k < length tr"
    then have "Suc k \<le> ?m - 1" using len by simp
    then have "Suc k * c \<le> (?m - 1) * c" by (rule mult_le_mono1)
    also have "\<dots> < length l" using assms(1,2) by (rule runs_last)
    finally have "k * c + c \<le> length l" by simp
    moreover have "tr ! k = take c (drop (k * c) l)"
      using k len by (simp add: assms(3))
    ultimately show "length (tr ! k) = c" by simp
  qed
  have l: "last tr = take c (drop ((?m - 1) * c) l)"
    using m by (simp add: assms(3) last_map last_upt)
  show "0 < length (last tr)"
    using runs_last [OF assms(1,2)] assms(1) by (simp add: l)
  show "length (last tr) \<le> c" by (simp add: l)
qed


lemma split_task_geo_ok:
  assumes "square_area_of latitude longitude = Inr sa"
    and "geo_ranges resolution latitude longitude geo_chunk_size sa = Inr (lat_ranges, lon_ranges)"
  shows "split_task resolution latitude longitude acquisitions geo_chunk_size time_chunks reverse_time =
           (case time_ranges_of acquisitions time_chunks reverse_time of
              Inl e \<Rightarrow> Inl e
            | Inr time_ranges \<Rightarrow> Inr (lat_ranges, lon_ranges, time_ranges))"
  using assms by (simp add: split_task_def)

text \<open>
  With no \<open>geo_chunk_size\<close>, the geographic part returns the ranges it was given.
\<close>

lemma geo_ranges_default:
  "square_area_of (Some lat) (Some lon) =
     Inr (fl_mul Binary64 (fl_sub Binary64 (snd lon) (fst lon)) (fl_sub Binary64 (snd lat) (fst lat)))"
  "geo_ranges resolution (Some lat) (Some lon) None sa = Inr ([Some lat], [Some lon])"
  by (simp_all add: square_area_of_def geo_ranges_def)

text \<open>
  The quotient \<^verbatim>\<open>len(acquisitions_sorted) / time_chunks\<close> as a \<^verbatim>\<open>float\<close>: positive
  when the exact quotient is above \<open>2 ^ - 1075\<close>, zero below, and with the ceiling of the
  exact quotient for a list of fewer than \<open>2 ^ 53\<close> elements.
\<close>

lemma quotient_above_underflow:
  assumes "0 < tc" and "tc < n * 2 ^ 1075"
  shows "2 powi (emin Binary64 - int (precision Binary64)) < (of_int n / of_int tc :: rat)"
proof -
  have tcr: "(0::rat) < of_int tc" using assms(1) by simp
  have "(of_int tc :: rat) < of_int (n * 2 ^ 1075)" using assms(2) by (simp only: of_int_less_iff)
  then have "(of_int tc :: rat) < of_int n * 2 ^ 1075" by simp
  then have "of_int tc / 2 ^ 1075 < (of_int n :: rat)" by (simp add: pos_divide_less_eq)
  then have "(1 / 2 ^ 1075) * of_int tc < (of_int n :: rat)" by simp
  then have "1 / 2 ^ 1075 < (of_int n / of_int tc :: rat)"
    using tcr by (simp only: pos_less_divide_eq)
  moreover have "(2::rat) powi (emin Binary64 - int (precision Binary64)) = 1 / 2 ^ 1075"
    by (simp add: power_int_def power_divide)
  ultimately show ?thesis by (simp only:)
qed

lemma int_truediv_pos:
  assumes "0 < tc" and "0 < n" and "n < 2 ^ nat k" and "0 \<le> k" and "k < 1024"
    and "tc < n * 2 ^ 1075"
  shows "py_int_truediv n tc = Inr (Fin (round_fmt Binary64 (of_int n / of_int tc)))"
    and "0 < round_fmt Binary64 (of_int n / of_int tc)"
proof -
  define x :: rat where "x = of_int n / of_int tc"
  have xpos: "0 < x" using assms(1,2) by (simp add: x_def)
  show pos: "0 < round_fmt Binary64 (of_int n / of_int tc)"
    using quotient_above_underflow [OF assms(1,6)] by (rule round_fmt_pos)
  have "(1::rat) \<le> of_int tc" using assms(1) by simp
  then have "of_int n / of_int tc \<le> (of_int n :: rat) / 1"
    using assms(2) by (intro divide_left_mono) simp_all
  then have xn: "x \<le> of_int n" by (simp add: x_def)
  have "(of_int n :: rat) < of_int (2 ^ nat k)" using assms(3) by (simp only: of_int_less_iff)
  also have "\<dots> = 2 powi k" using assms(4) by (simp only: pow2_of_int)
  finally have "x \<le> 2 powi k" using xn by linarith
  moreover have "emin Binary64 \<le> k" using assms(4) by simp
  ultimately have "round_fmt Binary64 x \<le> 2 powi k"
    using xpos by (intro round_fmt_le_pow2) simp_all
  moreover have "(2::rat) powi k < 2 powi (emax Binary64 + 1)"
    using assms(5) by (intro pow2_strict_mono) simp
  ultimately have "\<bar>round_fmt Binary64 x\<bar> < 2 powi (emax Binary64 + 1)"
    using pos by (simp add: x_def)
  then have "rnd Binary64 x = Fin (round_fmt Binary64 x)" by (rule rnd_finite)
  then show "py_int_truediv n tc = Inr (Fin (round_fmt Binary64 (of_int n / of_int tc)))"
    using assms(1) by (simp add: py_int_truediv_def x_def)
qed

lemma time_chunk_size_pos:
  assumes "0 < tc" and "l \<noteq> []" and "length l < 2 ^ 63" and "tc < int (length l) * 2 ^ 1075"
  shows "\<exists>c. time_chunk_size_of l tc = Inr c \<and> 0 < c"
proof -
  have n: "0 < int (length l)" using assms(2) by simp
  have "int (length l) < int (2 ^ 63)" using assms(3) by (simp only: of_nat_less_iff)
  then have b: "int (length l) < 2 ^ nat 63" by simp
  note q = int_truediv_pos [OF assms(1) n b _ _ assms(4)]
  have "0 < \<lceil>round_fmt Binary64 (of_int (int (length l)) / of_int tc)\<rceil>"
    using q(2) by simp
  then show ?thesis using q(1) by (simp add: time_chunk_size_of_def math_ceil_def)
qed

lemma time_chunk_size_exact:
  assumes "0 < tc" and "l \<noteq> []" and "length l < 2 ^ 53" and "tc < int (length l) * 2 ^ 1075"
  shows "time_chunk_size_of l tc = Inr \<lceil>(of_nat (length l) :: rat) / of_int tc\<rceil>"
proof -
  have n: "0 < int (length l)" using assms(2) by simp
  have "int (length l) < int (2 ^ 53)" using assms(3) by (simp only: of_nat_less_iff)
  then have b: "int (length l) < 2 ^ 53" by simp
  then have b': "int (length l) < 2 ^ nat 53" by simp
  note q = int_truediv_pos [OF assms(1) n b' _ _ assms(4)]
  have "round_fmt Binary64 (of_int (int (length l)) / of_int tc) \<noteq> 0" using q(2) by simp
  with assms(1) n b
  have "\<lceil>round_fmt Binary64 (of_int (int (length l)) / of_int tc)\<rceil>
          = \<lceil>(of_int (int (length l)) / of_int tc :: rat)\<rceil>"
    by (rule ceiling_round_quotient)
  then show ?thesis using q(1) by (simp add: time_chunk_size_of_def math_ceil_def)
qed

lemma time_chunk_size_empty:
  "tc \<noteq> 0 \<Longrightarrow> time_chunk_size_of [] tc = Inr 0"
  by (simp add: time_chunk_size_of_def py_int_truediv_def rnd_def round_fmt_def math_ceil_def)

lemma time_chunk_size_zero:
  "time_chunk_size_of l 0 = Inl ZeroDivisionError"
  by (simp add: time_chunk_size_of_def py_int_truediv_def)

text \<open>A quotient below \<open>2 ^ - 1075\<close> is rounded to \<open>0.0\<close>.\<close>

lemma time_chunk_size_underflow:
  assumes "int (length l) * 2 ^ 1075 < tc"
  shows "time_chunk_size_of l tc = Inr 0"
proof -
  define x :: rat where "x = of_int (int (length l)) / of_int tc"
  have "0 \<le> int (length l) * 2 ^ 1075" by simp
  with assms have tc: "0 < tc" by linarith
  then have tcr: "(0::rat) < of_int tc" by simp
  have x0: "0 \<le> x" using tc by (simp add: x_def)
  have "(of_int (int (length l) * 2 ^ 1075) :: rat) < of_int tc"
    using assms by (simp only: of_int_less_iff)
  then have "of_int (int (length l)) * 2 ^ 1075 < (of_int tc :: rat)" by simp
  then have "of_int (int (length l)) < (of_int tc :: rat) / 2 ^ 1075"
    by (simp add: pos_less_divide_eq)
  then have "of_int (int (length l)) < (1 / 2 ^ 1075) * (of_int tc :: rat)" by simp
  then have "x < 1 / 2 ^ 1075" unfolding x_def using tcr by (simp only: pos_divide_less_eq)
  moreover have "(2::rat) powi (emin Binary64 - int (precision Binary64)) = 1 / 2 ^ 1075"
    by (simp add: power_int_def power_divide)
  ultimately have "x < 2 powi (emin Binary64 - int (precision Binary64))" by (simp only:)
  with x0 have "round_fmt Binary64 x = 0" by (rule round_fmt_underflow)
  then have "rnd Binary64 x = Fin 0" by (simp add: rnd_def)
  then show ?thesis using tc by (simp add: time_chunk_size_of_def py_int_truediv_def x_def math_ceil_def)
qed

lemma time_ranges_of_chunked:
  fixes acquisitions :: "('a::linorder) list"
  assumes "acquisitions \<noteq> []" and "length acquisitions < 2 ^ 53" and "0 < tc"
    and "tc < int (length acquisitions) * 2 ^ 1075"
    and "ordered = (if reverse_time then rev (sort acquisitions) else sort acquisitions)"
    and "c = nat \<lceil>(of_nat (length acquisitions) :: rat) / of_int tc\<rceil>"
  shows "0 < c \<and>
         time_ranges_of (Some acquisitions) (Some tc) reverse_time =
           Inr (map (\<lambda>k. take c (drop (k * c) ordered)) [0 ..< (length ordered + c - 1) div c])"
proof -
  have n: "0 < length acquisitions" using assms(1) by simp
  have p: "0 < \<lceil>(of_nat (length acquisitions) :: rat) / of_int tc\<rceil>"
    using assms(3) n by simp
  then have c: "0 < c" and ic: "int c = \<lceil>(of_nat (length acquisitions) :: rat) / of_int tc\<rceil>"
    by (simp_all add: assms(6))
  have ne: "sort acquisitions \<noteq> []" using assms(1) by (metis length_sort length_0_conv)
  have s: "time_chunk_size_of (sort acquisitions) tc = Inr (int c)"
    using time_chunk_size_exact [OF assms(3) ne] assms(2,4) ic by simp
  have "time_ranges_of (Some acquisitions) (Some tc) reverse_time = chunks ordered (int c)"
    using s by (simp add: time_ranges_of_def assms(5) Let_def)
  with c show ?thesis by (simp add: chunks_pos)
qed

text \<open>
  Claim C2, as amended. Temporal chunking is a partition. For a non-empty list of fewer
  than \<open>2 ^ 53\<close> acquisitions and a positive integer \<open>time_chunks\<close> below
  \<open>n * 2 ^ 1075\<close>, on a call with a latitude and a longitude range whose geographic part
  returns, \<open>split_task\<close> returns time ranges that, concatenated in order, are the
  acquisitions sorted ascending (descending when \<open>reverse_time\<close> is set); every run but
  the last has \<open>ceil(n / time_chunks)\<close> elements, and the last run is not empty and not
  longer. With \<open>time_chunks\<close> \<^verbatim>\<open>None\<close>, the single run of all sorted acquisitions is
  returned.
\<close>

theorem split_task_time_partition:
  fixes acquisitions :: "('a::linorder) list"
  assumes "acquisitions \<noteq> []" and "length acquisitions < 2 ^ 53"
    and "0 < tc" and "tc < int (length acquisitions) * 2 ^ 1075"
    and "square_area_of (Some lat) (Some lon) = Inr sa"
    and "geo_ranges resolution (Some lat) (Some lon) geo_chunk_size sa = Inr (lat_ranges, lon_ranges)"
  shows "(\<exists>tr. split_task resolution (Some lat) (Some lon) (Some acquisitions) geo_chunk_size
                   (Some tc) reverse_time
                 = Inr (lat_ranges, lon_ranges, tr)
              \<and> concat tr = (if reverse_time then rev (sort acquisitions) else sort acquisitions)
              \<and> tr \<noteq> []
              \<and> (\<forall>k. Suc k < length tr \<longrightarrow>
                    length (tr ! k) = nat \<lceil>(of_nat (length acquisitions) :: rat) / of_int tc\<rceil>)
              \<and> 0 < length (last tr)
              \<and> length (last tr) \<le> nat \<lceil>(of_nat (length acquisitions) :: rat) / of_int tc\<rceil>)
         \<and> split_task resolution (Some lat) (Some lon) (Some acquisitions) geo_chunk_size
               None reverse_time
             = Inr (lat_ranges, lon_ranges,
                    [if reverse_time then rev (sort acquisitions) else sort acquisitions])"
proof -
  define ordered where "ordered = (if reverse_time then rev (sort acquisitions) else sort acquisitions)"
  define c where "c = nat \<lceil>(of_nat (length acquisitions) :: rat) / of_int tc\<rceil>"
  define tr where "tr = map (\<lambda>k. take c (drop (k * c) ordered)) [0 ..< (length ordered + c - 1) div c]"
  have t: "0 < c \<and> time_ranges_of (Some acquisitions) (Some tc) reverse_time = Inr tr"
    using time_ranges_of_chunked [OF assms(1,2,3,4) ordered_def c_def] by (simp add: tr_def)
  have "length ordered = length acquisitions" by (simp add: ordered_def)
  then have o: "ordered \<noteq> []" using assms(1) by auto
  have c: "0 < c" using t by simp
  have r: "split_task resolution (Some lat) (Some lon) (Some acquisitions) geo_chunk_size
               (Some tc) reverse_time
             = Inr (lat_ranges, lon_ranges, tr)"
    using t by (simp add: split_task_geo_ok [OF assms(5,6)])
  have n: "split_task resolution (Some lat) (Some lon) (Some acquisitions) geo_chunk_size
               None reverse_time
             = Inr (lat_ranges, lon_ranges, [ordered])"
    by (simp add: split_task_geo_ok [OF assms(5,6)] time_ranges_of_def ordered_def Let_def)
  note sh = runs_shape [OF c o tr_def]
  have "split_task resolution (Some lat) (Some lon) (Some acquisitions) geo_chunk_size
               (Some tc) reverse_time
                 = Inr (lat_ranges, lon_ranges, tr)
              \<and> concat tr = ordered \<and> tr \<noteq> []
              \<and> (\<forall>k. Suc k < length tr \<longrightarrow> length (tr ! k) = c)
              \<and> 0 < length (last tr) \<and> length (last tr) \<le> c"
    using r sh by blast
  then show ?thesis using n unfolding ordered_def c_def by blast
qed

theorem split_task_time_partition_witness:
  "(\<exists>tr. split_task (rnd Binary64 (269 / 1000000)) (Some (Fin 0, Fin 1)) (Some (Fin 0, Fin 1))
            (Some [3, 1, 2, 5, 4 :: nat]) None (Some 2) True
          = Inr ([Some (Fin 0, Fin 1)], [Some (Fin 0, Fin 1)], tr)
        \<and> concat tr = [5, 4, 3, 2, 1]
        \<and> tr \<noteq> []
        \<and> (\<forall>k. Suc k < length tr \<longrightarrow> length (tr ! k) = 3)
        \<and> 0 < length (last tr) \<and> length (last tr) \<le> 3)
   \<and> split_task (rnd Binary64 (269 / 1000000)) (Some (Fin 0, Fin 1)) (Some (Fin 0, Fin 1))
       (Some [3, 1, 2, 5, 4 :: nat]) None None True
     = Inr ([Some (Fin 0, Fin 1)], [Some (Fin 0, Fin 1)], [[5, 4, 3, 2, 1]])"
proof -
  have a: "[3, 1, 2, 5, 4 :: nat] \<noteq> []"
    and l: "length [3, 1, 2, 5, 4 :: nat] < 2 ^ 53"
    and b: "(0::int) < 2"
    and u: "(2::int) < int (length [3, 1, 2, 5, 4 :: nat]) * 2 ^ 1075"
    by simp_all
  have c: "nat \<lceil>(of_nat (length [3, 1, 2, 5, 4 :: nat]) :: rat) / of_int 2\<rceil> = 3"
  proof -
    have "\<lceil>5 / 2 :: rat\<rceil> = 3" by (rule ceiling_unique) simp_all
    then show ?thesis by simp
  qed
  have s: "sort [3, 1, 2, 5, 4 :: nat] = [1, 2, 3, 4, 5]" by simp
  from split_task_time_partition [where reverse_time = True, OF a l b u geo_ranges_default]
  show ?thesis unfolding c s by simp
qed

text \<open>
  The claim itself fails in two ways. With a \<open>time_chunks\<close> so large that the quotient
  \<^verbatim>\<open>len(acquisitions_sorted) / time_chunks\<close> is rounded to \<open>0.0\<close>, the chunk size is 0
  and \<^verbatim>\<open>range\<close> raises ValueError; and with \<open>latitude\<close> and \<open>longitude\<close> left at
  their default \<^verbatim>\<open>None\<close>, line 82 raises TypeError before the test for \<^verbatim>\<open>None\<close> on
  line 88 is reached.
\<close>

theorem split_task_time_partition_counterexample:
  "split_task (rnd Binary64 (269 / 1000000)) (Some (Fin 0, Fin 1)) (Some (Fin 0, Fin 1))
       (Some [3, 1, 2 :: nat]) None (Some (2 ^ 1080)) False
     = Inl ValueError
   \<and> split_task (rnd Binary64 (269 / 1000000)) None None
       (Some [3, 1, 2 :: nat]) None (Some 2) False
     = Inl TypeError"
proof -
  have "int (length (sort [3, 1, 2 :: nat])) * 2 ^ 1075 < 2 ^ 1080" by simp
  then have "time_chunk_size_of (sort [3, 1, 2 :: nat]) (2 ^ 1080) = Inr 0"
    by (rule time_chunk_size_underflow)
  then have "split_task (rnd Binary64 (269 / 1000000)) (Some (Fin 0, Fin 1)) (Some (Fin 0, Fin 1))
       (Some [3, 1, 2 :: nat]) None (Some (2 ^ 1080)) False = Inl ValueError"
    by (simp add: split_task_geo_ok [OF geo_ranges_default] time_ranges_of_def Let_def
        chunks_zero del: sort_key_simps)
  moreover have "split_task (rnd Binary64 (269 / 1000000)) None None
       (Some [3, 1, 2 :: nat]) None (Some 2) False = Inl TypeError"
    by (simp add: split_task_def square_area_of_def)
  ultimately show ?thesis by (rule conjI)
qed

text \<open>
  Claim C10, as amended. With a \<open>time_chunks\<close> that is not \<^verbatim>\<open>None\<close>: on a call whose
  geographic part returns, for a non-empty list of fewer than \<open>2 ^ 63\<close> acquisitions and
  a positive \<open>time_chunks\<close> below \<open>n * 2 ^ 1075\<close>, the time chunk size is positive and
  \<open>split_task\<close> returns; for an empty list and any \<open>time_chunks\<close> but 0, the chunk size
  is 0 and the call raises the ValueError of \<^verbatim>\<open>range\<close> with a zero step. A call with
  an empty list never returns a result, whatever its other arguments.
\<close>

theorem split_task_total_iff_nonempty:
  fixes acquisitions :: "('a::linorder) list"
  shows "(square_area_of latitude longitude = Inr sa
          \<and> geo_ranges resolution latitude longitude geo_chunk_size sa = Inr (lat_ranges, lon_ranges)
          \<and> acquisitions \<noteq> [] \<and> length acquisitions < 2 ^ 63
          \<and> 0 < tc \<and> tc < int (length acquisitions) * 2 ^ 1075 \<longrightarrow>
           (\<exists>c tr. time_chunk_size_of (sort acquisitions) tc = Inr c \<and> 0 < c
              \<and> split_task resolution latitude longitude (Some acquisitions) geo_chunk_size
                    (Some tc) reverse_time
                  = Inr (lat_ranges, lon_ranges, tr)))
       \<and> (square_area_of latitude longitude = Inr sa
          \<and> geo_ranges resolution latitude longitude geo_chunk_size sa = Inr (lat_ranges, lon_ranges)
          \<and> tc \<noteq> 0 \<longrightarrow>
            time_chunk_size_of (sort ([] :: 'a list)) tc = Inr 0
            \<and> split_task resolution latitude longitude (Some ([] :: 'a list)) geo_chunk_size
                  (Some tc) reverse_time
                = Inl ValueError)
       \<and> (\<exists>e. split_task resolution latitude longitude (Some ([] :: 'a list)) geo_chunk_size
                  (Some tc) reverse_time
                = Inl e)"
proof (intro conjI impI)
  assume h: "square_area_of latitude longitude = Inr sa
          \<and> geo_ranges resolution latitude longitude geo_chunk_size sa = Inr (lat_ranges, lon_ranges)
          \<and> acquisitions \<noteq> [] \<and> length acquisitions < 2 ^ 63
          \<and> 0 < tc \<and> tc < int (length acquisitions) * 2 ^ 1075"
  then have g: "square_area_of latitude longitude = Inr sa"
      "geo_ranges resolution latitude longitude geo_chunk_size sa = Inr (lat_ranges, lon_ranges)"
    by simp_all
  have ne: "sort acquisitions \<noteq> []" using h by (metis length_sort length_0_conv)
  from h have "\<exists>c. time_chunk_size_of (sort acquisitions) tc = Inr c \<and> 0 < c"
    by (intro time_chunk_size_pos ne) simp_all
  then obtain c where c: "time_chunk_size_of (sort acquisitions) tc = Inr c" "0 < c" by blast
  then have "int (nat c) = c" by simp
  then have "chunks (if reverse_time then rev (sort acquisitions) else sort acquisitions) c
               = Inr (map (\<lambda>k. take (nat c) (drop (k * nat c)
                        (if reverse_time then rev (sort acquisitions) else sort acquisitions)))
                      [0 ..< (length (if reverse_time then rev (sort acquisitions) else sort acquisitions)
                               + nat c - 1) div nat c])"
    using chunks_pos [of "nat c"] c(2) by (metis zero_less_nat_eq)
  then have "\<exists>tr. split_task resolution latitude longitude (Some acquisitions) geo_chunk_size
                    (Some tc) reverse_time = Inr (lat_ranges, lon_ranges, tr)"
    using c(1) by (simp add: split_task_geo_ok [OF g] time_ranges_of_def Let_def)
  with c show "\<exists>c tr. time_chunk_size_of (sort acquisitions) tc = Inr c \<and> 0 < c
              \<and> split_task resolution latitude longitude (Some acquisitions) geo_chunk_size
                    (Some tc) reverse_time
                  = Inr (lat_ranges, lon_ranges, tr)"
    by blast
next
  assume h: "square_area_of latitude longitude = Inr sa
          \<and> geo_ranges resolution latitude longitude geo_chunk_size sa = Inr (lat_ranges, lon_ranges)
          \<and> tc \<noteq> 0"
  then have g: "square_area_of latitude longitude = Inr sa"
      "geo_ranges resolution latitude longitude geo_chunk_size sa = Inr (lat_ranges, lon_ranges)"
    by simp_all
  show z: "time_chunk_size_of (sort ([] :: 'a list)) tc = Inr 0"
    using h by (simp add: time_chunk_size_empty)
  then show "split_task resolution latitude longitude (Some ([] :: 'a list)) geo_chunk_size
                  (Some tc) reverse_time = Inl ValueError"
    by (simp add: split_task_geo_ok [OF g] time_ranges_of_def Let_def chunks_zero)
next
  have t: "time_ranges_of (Some ([] :: 'a list)) (Some tc) reverse_time
             = Inl (if tc = 0 then ZeroDivisionError else ValueError)"
    by (simp add: time_ranges_of_def Let_def time_chunk_size_empty time_chunk_size_zero chunks_zero)
  show "\<exists>e. split_task resolution latitude longitude (Some ([] :: 'a list)) geo_chunk_size
                  (Some tc) reverse_time = Inl e"
    by (simp add: split_task_def t split: sum.splits prod.splits)
qed

theorem split_task_total_iff_nonempty_witness:
  "(\<exists>c tr. time_chunk_size_of (sort [3, 1, 2 :: nat]) 2 = Inr c \<and> 0 < c
       \<and> split_task (rnd Binary64 (269 / 1000000)) (Some (Fin 0, Fin 1)) (Some (Fin 0, Fin 1))
            (Some [3, 1, 2 :: nat]) None (Some 2) False
            = Inr ([Some (Fin 0, Fin 1)], [Some (Fin 0, Fin 1)], tr))
   \<and> time_chunk_size_of (sort ([] :: nat list)) (- 2) = Inr 0
   \<and> split_task (rnd Binary64 (269 / 1000000)) (Some (Fin 0, Fin 1)) (Some (Fin 0, Fin 1))
        (Some ([] :: nat list)) None (Some (- 2)) False
        = Inl ValueError"
proof -
  have u: "(2::int) < int (length [3, 1, 2 :: nat]) * 2 ^ 1075" by simp
  note g = geo_ranges_default [where lat = "(Fin 0, Fin 1)" and lon = "(Fin 0, Fin 1)"]
  from split_task_total_iff_nonempty [where latitude = "Some (Fin 0, Fin 1)"
         and longitude = "Some (Fin 0, Fin 1)" and resolution = "rnd Binary64 (269 / 1000000)"
         and geo_chunk_size = None and lat_ranges = "[Some (Fin 0, Fin 1)]"
         and lon_ranges = "[Some (Fin 0, Fin 1)]" and acquisitions = "[3, 1, 2 :: nat]"
         and tc = 2 and reverse_time = False]
       split_task_total_iff_nonempty [where latitude = "Some (Fin 0, Fin 1)"
         and longitude = "Some (Fin 0, Fin 1)" and resolution = "rnd Binary64 (269 / 1000000)"
         and geo_chunk_size = None and lat_ranges = "[Some (Fin 0, Fin 1)]"
         and lon_ranges = "[Some (Fin 0, Fin 1)]" and acquisitions = "[] :: nat list"
         and tc = "- 2" and reverse_time = False]
       g u
  show ?thesis by simp
qed

text \<open>
  Without the restriction to a positive \<open>time_chunks\<close> the statement fails: with
  \<open>time_chunks = 0\<close> and acquisitions present, the division raises.
\<close>

theorem split_task_zero_time_chunks_counterexample:
  "split_task (rnd Binary64 (269 / 1000000)) (Some (Fin 0, Fin 1)) (Some (Fin 0, Fin 1))
     (Some [3, 1, 2 :: nat]) None (Some 0) False
     = Inl ZeroDivisionError"
  by (simp add: split_task_geo_ok [OF geo_ranges_default] time_ranges_of_def Let_def
      time_chunk_size_zero)

text \<open>
  With a negative \<open>time_chunks\<close> and acquisitions present the chunk size is not
  positive: the call returns no time range at all, or raises when the size is 0. With a
  positive \<open>time_chunks\<close> too large for the quotient, the chunk size is 0 although
  acquisitions are present.
\<close>

lemma split_task_negative_time_chunks:
  "time_chunk_size_of (sort [3, 1, 2 :: nat]) (- 1) = Inr (- 3)
   \<and> split_task (rnd Binary64 (269 / 1000000)) (Some (Fin 0, Fin 1)) (Some (Fin 0, Fin 1))
        (Some [3, 1, 2 :: nat]) None (Some (- 1)) False
     = Inr ([Some (Fin 0, Fin 1)], [Some (Fin 0, Fin 1)], [])
   \<and> time_chunk_size_of (sort [3 :: nat]) (- 2) = Inr 0"
proof -
  have r: "rnd Binary64 (- 3) = Fin (- 3)" "rnd Binary64 (- (1 / 2)) = Fin (- (1 / 2))"
    by code_simp+
  have c: "\<lceil>- (1 / 2) :: rat\<rceil> = 0" by (rule ceiling_unique) simp_all
  have a: "time_chunk_size_of (sort [3, 1, 2 :: nat]) (- 1) = Inr (- 3)"
    by (simp add: time_chunk_size_of_def py_int_truediv_def r math_ceil_def)
  have b: "time_chunk_size_of (sort [3 :: nat]) (- 2) = Inr 0"
    by (simp add: time_chunk_size_of_def py_int_truediv_def r math_ceil_def c)
  have "split_task (rnd Binary64 (269 / 1000000)) (Some (Fin 0, Fin 1)) (Some (Fin 0, Fin 1))
        (Some [3, 1, 2 :: nat]) None (Some (- 1)) False
     = Inr ([Some (Fin 0, Fin 1)], [Some (Fin 0, Fin 1)], [])"
    using a by (simp add: split_task_geo_ok [OF geo_ranges_default] time_ranges_of_def Let_def
        chunks_def py_range_def)
  with a b show ?thesis by simp
qed

lemma time_chunk_size_huge_time_chunks:
  "time_chunk_size_of (sort [3, 1, 2 :: nat]) (2 ^ 1080) = Inr 0"
proof -
  have "int (length (sort [3, 1, 2 :: nat])) * 2 ^ 1075 < 2 ^ 1080" by simp
  then show ?thesis by (rule time_chunk_size_underflow)
qed

subsection \<open>Vegetation indices\<close>
















subsection \<open>Scene metadata\<close>

text \<open>
  Claim C9. When the query returns an empty dataset, \<open>get_scene_metadata\<close> returns
  the dictionary with \<open>lat_extents\<close>, \<open>lon_extents\<close> and \<open>time_extents\<close> equal to
  \<open>(0, 0)\<close>, the three counts equal to 0 and \<open>storage_units\<close> the empty
  dictionary. When the dataset is not empty (it has a geobox and at least one time, as
  every dataset that the data cube loads), the returned dictionary has the keys
  \<open>lat_extents\<close>, \<open>lon_extents\<close>, \<open>time_extents\<close>, \<open>scene_count\<close> and
  \<open>pixel_count\<close> and no other, so neither \<open>tile_count\<close> nor \<open>storage_units\<close>.
\<close>

theorem get_scene_metadata_keys:
  assumes "dataset = dc_load product (build_query None platform time longitude latitude crs)"
  shows "(variable_names dataset = [] \<longrightarrow>
            (\<exists>m. get_scene_metadata dc_load platform product longitude latitude crs time = Inr m
               \<and> m ''lat_extents'' = Some (MTuple (MInt 0) (MInt 0))
               \<and> m ''lon_extents'' = Some (MTuple (MInt 0) (MInt 0))
               \<and> m ''time_extents'' = Some (MTuple (MInt 0) (MInt 0))
               \<and> m ''scene_count'' = Some (MInt 0)
               \<and> m ''pixel_count'' = Some (MInt 0)
               \<and> m ''tile_count'' = Some (MInt 0)
               \<and> m ''storage_units'' = Some (MDict [])
               \<and> dom m = {''lat_extents'', ''lon_extents'', ''time_extents'', ''scene_count'',
                            ''pixel_count'', ''tile_count'', ''storage_units''}))
       \<and> (variable_names dataset \<noteq> [] \<and> geobox_of dataset \<noteq> None \<and> time_coord dataset \<noteq> [] \<longrightarrow>
            (\<exists>m. get_scene_metadata dc_load platform product longitude latitude crs time = Inr m
               \<and> dom m = {''lat_extents'', ''lon_extents'', ''time_extents'', ''scene_count'',
                            ''pixel_count''}
               \<and> ''tile_count'' \<notin> dom m \<and> ''storage_units'' \<notin> dom m))"
proof (intro conjI impI)
  assume "variable_names dataset = []"
  then show "\<exists>m. get_scene_metadata dc_load platform product longitude latitude crs time = Inr m
               \<and> m ''lat_extents'' = Some (MTuple (MInt 0) (MInt 0))
               \<and> m ''lon_extents'' = Some (MTuple (MInt 0) (MInt 0))
               \<and> m ''time_extents'' = Some (MTuple (MInt 0) (MInt 0))
               \<and> m ''scene_count'' = Some (MInt 0)
               \<and> m ''pixel_count'' = Some (MInt 0)
               \<and> m ''tile_count'' = Some (MInt 0)
               \<and> m ''storage_units'' = Some (MDict [])
               \<and> dom m = {''lat_extents'', ''lon_extents'', ''time_extents'', ''scene_count'',
                            ''pixel_count'', ''tile_count'', ''storage_units''}"
    using assms by (auto simp: get_scene_metadata_def get_dataset_by_extent_def Let_def)
next
  assume a: "variable_names dataset \<noteq> [] \<and> geobox_of dataset \<noteq> None \<and> time_coord dataset \<noteq> []"
  then obtain gb where gb: "geobox_of dataset = Some gb" by auto
  obtain lon_min lat_min lon_max lat_max where e: "envelope gb = (lon_min, lat_min, lon_max, lat_max)"
    by (cases "envelope gb") auto
  show "\<exists>m. get_scene_metadata dc_load platform product longitude latitude crs time = Inr m
               \<and> dom m = {''lat_extents'', ''lon_extents'', ''time_extents'', ''scene_count'',
                            ''pixel_count''}
               \<and> ''tile_count'' \<notin> dom m \<and> ''storage_units'' \<notin> dom m"
    using assms a gb e
    by (auto simp: get_scene_metadata_def get_dataset_by_extent_def Let_def)
qed

theorem get_scene_metadata_keys_witness:
  "(\<exists>m. get_scene_metadata (\<lambda>p q. \<lparr>variable_names = [], time_coord = [], geobox_of = None\<rparr>)
          (Some ''LANDSAT_7'') ''ls7_ledaps'' (Some (0, 1)) (Some (2, 3)) None None = Inr m
        \<and> m ''tile_count'' = Some (MInt 0) \<and> m ''storage_units'' = Some (MDict []))
   \<and> (\<exists>m. get_scene_metadata
          (\<lambda>p q. \<lparr>variable_names = [''red'', ''nir''], time_coord = [1500000000123456789, 1600000000000000000],
                   geobox_of = Some \<lparr>envelope = (0, 2, 1, 3), gb_shape = (4, 5)\<rparr>\<rparr>)
          (Some ''LANDSAT_7'') ''ls7_ledaps'' (Some (0, 1)) (Some (2, 3)) None None = Inr m
        \<and> m ''scene_count'' = Some (MInt 2) \<and> m ''pixel_count'' = Some (MInt 20)
        \<and> m ''lat_extents'' = Some (MTuple (MNum 2) (MNum 3))
        \<and> m ''time_extents'' = Some (MTuple (MTime 1500000000123) (MTime 1600000000000))
        \<and> m ''tile_count'' = None \<and> m ''storage_units'' = None)"
proof -
  let ?l1 = "\<lambda>(p :: string) (q :: query). \<lparr>variable_names = [], time_coord = [], geobox_of = None\<rparr>"
  let ?l2 = "\<lambda>(p :: string) (q :: query).
     \<lparr>variable_names = [''red'', ''nir''], time_coord = [1500000000123456789, 1600000000000000000],
      geobox_of = Some \<lparr>envelope = (0, 2, 1, 3), gb_shape = (4, 5)\<rparr>\<rparr>"
  note a = get_scene_metadata_keys [OF refl, of ?l1 "''ls7_ledaps''" "Some ''LANDSAT_7''" None
      "Some (0, 1)" "Some (2, 3)" None]
  note b = get_scene_metadata_keys [OF refl, of ?l2 "''ls7_ledaps''" "Some ''LANDSAT_7''" None
      "Some (0, 1)" "Some (2, 3)" None]
  from a b show ?thesis
    by (simp add: get_scene_metadata_def get_dataset_by_extent_def Let_def)
qed

subsection \<open>Incremental time series analysis\<close>





















subsection \<open>The compositing reducers and the store\<close>



















subsection \<open>Filling of nodata values\<close>












subsection \<open>The assertion of the anomaly computation\<close>

text \<open>
  Claim C7. \<open>compute_ndvi_anomaly\<close> raises AssertionError if and only if
  \<open>baseline_clear_mask\<close> or \<open>selected_scene_clear_mask\<close> is \<^verbatim>\<open>None\<close> (given that
  \<open>wofs_classify\<close> raises no AssertionError of its own), and it does so before
  anything else: on that error no statement has read an input. The function assigns to
  no input at all.
\<close>

theorem compute_ndvi_anomaly_assertion:
  assumes "\<forall>scene msk. wofs_classify scene msk \<noteq> Inl AssertionError"
  shows "(fst (compute_ndvi_anomaly median_time wofs_classify baseline_data scene_data
                 baseline_clear_mask selected_scene_clear_mask no_data) = Inl AssertionError)
           = (baseline_clear_mask = None \<or> selected_scene_clear_mask = None)
       \<and> (baseline_clear_mask = None \<or> selected_scene_clear_mask = None \<longrightarrow>
             snd (compute_ndvi_anomaly median_time wofs_classify baseline_data scene_data
                    baseline_clear_mask selected_scene_clear_mask no_data) = [])"
proof (cases "baseline_clear_mask = None \<or> selected_scene_clear_mask = None")
  case True
  then show ?thesis by (auto simp: compute_ndvi_anomaly_def)
next
  case False
  then have m: "selected_scene_clear_mask \<noteq> None \<and> baseline_clear_mask \<noteq> None" by simp
  have "fst (compute_ndvi_anomaly median_time wofs_classify baseline_data scene_data
                 baseline_clear_mask selected_scene_clear_mask no_data) \<noteq> Inl AssertionError"
    using assms m
    by (auto simp: compute_ndvi_anomaly_def Let_def split: option.splits sum.splits)
  with False show ?thesis by blast
qed

theorem compute_ndvi_anomaly_assertion_witness:
  "fst (compute_ndvi_anomaly (\<lambda>a. hd a) (\<lambda>scene msk. Inr [Fin 0, Fin 1])
          \<lparr>ts_latitude = [0, 1], ts_longitude = [5], ts_time = [1],
           ts_data_vars = [(''nir'', [[3, 4]]), (''red'', [[1, 2]])]\<rparr>
          \<lparr>ds_coords = [(''latitude'', [0, 1]), (''longitude'', [5])],
           data_vars = [(''nir'', [5, 4]), (''red'', [1, 2])]\<rparr>
          None (Some [True, True]) (- 9999)) = Inl AssertionError
   \<and> snd (compute_ndvi_anomaly (\<lambda>a. hd a) (\<lambda>scene msk. Inr [Fin 0, Fin 1])
          \<lparr>ts_latitude = [0, 1], ts_longitude = [5], ts_time = [1],
           ts_data_vars = [(''nir'', [[3, 4]]), (''red'', [[1, 2]])]\<rparr>
          \<lparr>ds_coords = [(''latitude'', [0, 1]), (''longitude'', [5])],
           data_vars = [(''nir'', [5, 4]), (''red'', [1, 2])]\<rparr>
          None (Some [True, True]) (- 9999)) = []
   \<and> compute_ndvi_anomaly (\<lambda>a. hd a) (\<lambda>scene msk. Inr [Fin 0, Fin 1])
          \<lparr>ts_latitude = [0, 1], ts_longitude = [5], ts_time = [1],
           ts_data_vars = [(''nir'', [[3, 4]]), (''red'', [[1, 2]])]\<rparr>
          \<lparr>ds_coords = [(''latitude'', [0, 1]), (''longitude'', [5])],
           data_vars = [(''nir'', [5, 4]), (''red'', [1, 2])]\<rparr>
          (Some [[True, True]]) (Some [True, True]) (- 9999)
       = (Inr \<lparr>an_coords = [(''latitude'', [0, 1]), (''longitude'', [5])],
               scene_ndvi = [Fin (2 / 3), Fin (- 9999)],
               baseline_ndvi = [Fin (1 / 2), Fin (1 / 3)],
               ndvi_difference = [Fin (1 / 6), Fin (- 9999)],
               ndvi_percentage_change = [Fin (1 / 3), Fin (- 9999)]\<rparr>,
          [''baseline_data'', ''scene_data'', ''scene_data''])"
proof -
  have h: "\<forall>scene msk. (\<lambda>(scene :: rat dataset) (msk :: bool list). Inr [Fin 0, Fin 1]) scene msk
             \<noteq> (Inl AssertionError :: py_error + fval list)"
    by simp
  from compute_ndvi_anomaly_assertion [OF h, of "\<lambda>a. hd a"
      "\<lparr>ts_latitude = [0, 1], ts_longitude = [5], ts_time = [1],
           ts_data_vars = [(''nir'', [[3, 4]]), (''red'', [[1, 2]])]\<rparr>"
      "\<lparr>ds_coords = [(''latitude'', [0, 1]), (''longitude'', [5])],
           data_vars = [(''nir'', [5, 4]), (''red'', [1, 2])]\<rparr>"
      None "Some [True, True]" "- 9999"]
  show ?thesis
    by (simp add: compute_ndvi_anomaly_def where_valid_def ndvi_of_def nonfinite_to_def
        fsub_def inf_of_sign_def)
qed

end
